theory Spec2Isabelle
  imports Main
begin

section \<open>Go values\<close>

text \<open>
  A Go \<^verbatim>\<open>error\<close> value is identified with the text its \<^verbatim>\<open>Error()\<close> method returns; the
  \<^verbatim>\<open>nil\<close> error is \<open>None\<close> of \<open>error option\<close>.
\<close>

datatype error = errorString string

primrec ErrorText :: "error \<Rightarrow> string" where
  "ErrorText (errorString s) = s"

text \<open>A Go call either returns its results or panics.\<close>

datatype 'a go = Return 'a | Panic

text \<open>\<^verbatim>\<open>time.Duration\<close> counts nanoseconds.\<close>

type_synonym Duration = int

definition Second :: Duration where
  "Second = 1000000000"

definition Minute :: Duration where
  "Minute = 60 * Second"

definition backslash :: char where
  "backslash = CHR 0x5C"

section \<open>Regular expressions: the fragment of Go's \<^verbatim>\<open>regexp\<close> that \<^verbatim>\<open>splitVolumeParts\<close> uses\<close>

text \<open>
  Syntax trees for the operators that occur in the pattern of \<^verbatim>\<open>splitVolumeParts\<close>:
  \<^verbatim>\<open>^\<close>, one character of a (possibly negated) class, greedy \<^verbatim>\<open>*\<close> and \<^verbatim>\<open>?\<close>,
  concatenation, and capturing groups. A class lists single characters and \<^verbatim>\<open>\w\<close>.
\<close>

datatype citem = Ch char | WordClass

datatype regex =
    Empty
  | Bol
  | Chars bool "citem list"
  | Star regex
  | Opt regex
  | Cat regex regex
  | Cap nat regex

text \<open>Go's \<^verbatim>\<open>\w\<close> is the ASCII class \<^verbatim>\<open>[0-9A-Za-z_]\<close>.\<close>

definition is_word_char :: "char \<Rightarrow> bool" where
  "is_word_char c =
     (c \<in> set ''0123456789ABCDEFGHIJKLMNOPQRSTUVWXYZabcdefghijklmnopqrstuvwxyz_'')"

fun item_matches :: "citem \<Rightarrow> char \<Rightarrow> bool" where
  "item_matches (Ch x) c = (c = x)"
| "item_matches WordClass c = is_word_char c"

definition in_class :: "bool \<Rightarrow> citem list \<Rightarrow> char \<Rightarrow> bool" where
  "in_class negated items c = (negated \<noteq> list_ex (\<lambda>it. item_matches it c) items)"

fun mk_cat :: "regex list \<Rightarrow> regex" where
  "mk_cat [] = Empty"
| "mk_cat [r] = r"
| "mk_cat (r # rs) = Cat r (mk_cat rs)"

subsection \<open>\<^verbatim>\<open>regexp.Compile\<close>\<close>

text \<open>
  The parser reads the pattern left to right. \<open>items\<close> holds the pieces of the group being
  read, last first; \<open>stack\<close> holds, for every group still open, its capture index (none for
  \<^verbatim>\<open>(?:\<close>) and the pieces read before it; \<open>cls\<close> is set while a bracket expression is read.
  Syntax outside the fragment (alternation, \<^verbatim>\<open>+\<close>, counted repetition, \<^verbatim>\<open>.\<close>, \<^verbatim>\<open>$\<close>, class
  ranges, flags, a repetition operator right after another one or after \<^verbatim>\<open>^\<close>) is reported as
  an error here, also where Go would accept it; the pattern of \<^verbatim>\<open>splitVolumeParts\<close> uses
  none of it.
\<close>

definition is_alnum :: "char \<Rightarrow> bool" where
  "is_alnum c =
     (c \<in> set ''0123456789ABCDEFGHIJKLMNOPQRSTUVWXYZabcdefghijklmnopqrstuvwxyz'')"

type_synonym frame = "nat option \<times> regex list"

fun close_group :: "nat option \<Rightarrow> regex list \<Rightarrow> regex" where
  "close_group None items = mk_cat (rev items)"
| "close_group (Some n) items = Cap n (mk_cat (rev items))"

fun parse :: "string \<Rightarrow> (bool \<times> citem list) option \<Rightarrow> regex list \<Rightarrow> frame list \<Rightarrow> nat
    \<Rightarrow> error + regex" where
  "parse [] cls items stack ncap =
     (if cls \<noteq> None then Inl (errorString ''missing closing ]'')
      else if stack \<noteq> [] then Inl (errorString ''missing closing )'')
      else Inr (mk_cat (rev items)))"
| "parse (c # cs) (Some (negated, acc)) items stack ncap =
     (if c = CHR '']'' \<and> acc \<noteq> [] then
        parse cs None (Chars negated (rev acc) # items) stack ncap
      else if c = backslash then
        (case cs of
           [] \<Rightarrow> Inl (errorString ''trailing backslash at end of expression'')
         | e # rest \<Rightarrow>
             if e = CHR ''w'' then parse rest (Some (negated, WordClass # acc)) items stack ncap
             else if \<not> is_alnum e then parse rest (Some (negated, Ch e # acc)) items stack ncap
             else Inl (errorString ''invalid escape sequence''))
      else if c = CHR ''-'' \<or> c = CHR ''['' then
        Inl (errorString ''unsupported character class syntax'')
      else parse cs (Some (negated, Ch c # acc)) items stack ncap)"
| "parse (c # cs) None items stack ncap =
     (if c = CHR ''('' then
        (if take 2 cs = ''?:'' then parse (drop 2 cs) None [] ((None, items) # stack) ncap
         else if take 1 cs = ''?'' then Inl (errorString ''invalid or unsupported Perl syntax'')
         else parse cs None [] ((Some (Suc ncap), items) # stack) (Suc ncap))
      else if c = CHR '')'' then
        (case stack of
           [] \<Rightarrow> Inl (errorString ''unexpected )'')
         | (cap, outer) # stack' \<Rightarrow> parse cs None (close_group cap items # outer) stack' ncap)
      else if c = CHR ''['' then
        (if take 1 cs = ''^'' then parse (drop 1 cs) (Some (True, [])) items stack ncap
         else parse cs (Some (False, [])) items stack ncap)
      else if c = backslash then
        (case cs of
           [] \<Rightarrow> Inl (errorString ''trailing backslash at end of expression'')
         | e # rest \<Rightarrow>
             if e = CHR ''w'' then parse rest None (Chars False [WordClass] # items) stack ncap
             else if \<not> is_alnum e then parse rest None (Chars False [Ch e] # items) stack ncap
             else Inl (errorString ''invalid escape sequence''))
      else if c = CHR ''?'' \<or> c = CHR ''*'' then
        (case items of
           [] \<Rightarrow> Inl (errorString ''missing argument to repetition operator'')
         | r # items' \<Rightarrow>
             (case r of
                Star r' \<Rightarrow> Inl (errorString ''unsupported or invalid nested repetition'')
              | Opt r' \<Rightarrow> Inl (errorString ''unsupported or invalid nested repetition'')
              | Bol \<Rightarrow> Inl (errorString ''unsupported repetition of an empty-width operator'')
              | _ \<Rightarrow>
                  parse cs None ((if c = CHR ''?'' then Opt r else Star r) # items') stack ncap))
      else if c = CHR ''^'' then parse cs None (Bol # items) stack ncap
      else if c \<in> set ''|+{}.$'' then Inl (errorString ''unsupported syntax'')
      else parse cs None (Chars False [Ch c] # items) stack ncap)"

definition regexp_Compile :: "string \<Rightarrow> error + regex" where
  "regexp_Compile expr = parse expr None [] [] 0"

subsection \<open>Matching\<close>

text \<open>
  Go's matcher returns the leftmost match and, among the matches starting there, the one a
  backtracking search finds first (greedy operators try the longer alternative first).
  A matcher state is the position reached, the input left, and the text of the groups
  captured so far. \<open>backtrack r st\<close> lists every way of matching \<open>r\<close> from \<open>st\<close>, in the
  order a backtracking search tries them.
\<close>

type_synonym mstate = "nat \<times> string \<times> (nat \<rightharpoonup> string)"

primrec star_from :: "(mstate \<Rightarrow> mstate list) \<Rightarrow> nat \<Rightarrow> mstate \<Rightarrow> mstate list" where
  "star_from step 0 st = [st]"
| "star_from step (Suc n) st =
     concat (map (star_from step n) (filter (\<lambda>st'. fst st < fst st') (step st))) @ [st]"

fun backtrack :: "regex \<Rightarrow> mstate \<Rightarrow> mstate list" where
  "backtrack Empty st = [st]"
| "backtrack Bol st = (if fst st = 0 then [st] else [])"
| "backtrack (Chars negated items) st =
     (case fst (snd st) of
        [] \<Rightarrow> []
      | x # xs \<Rightarrow> if in_class negated items x then [(Suc (fst st), xs, snd (snd st))] else [])"
| "backtrack (Star r) st = star_from (backtrack r) (length (fst (snd st))) st"
| "backtrack (Opt r) st = backtrack r st @ [st]"
| "backtrack (Cat r1 r2) st = concat (map (backtrack r2) (backtrack r1 st))"
| "backtrack (Cap n r) st =
     map (\<lambda>st'. (fst st', fst (snd st'),
                  (snd (snd st'))(n \<mapsto> take (fst st' - fst st) (fst (snd st)))))
         (backtrack r st)"

text \<open>The search tries every start position, leftmost first.\<close>

fun search :: "regex \<Rightarrow> nat \<Rightarrow> string \<Rightarrow> (nat \<times> mstate) option" where
  "search r pos [] =
     (case backtrack r (pos, [], Map.empty) of [] \<Rightarrow> None | st # _ \<Rightarrow> Some (pos, st))"
| "search r pos (x # xs) =
     (case backtrack r (pos, x # xs, Map.empty) of
        [] \<Rightarrow> search r (Suc pos) xs
      | st # _ \<Rightarrow> Some (pos, st))"

primrec NumSubexp :: "regex \<Rightarrow> nat" where
  "NumSubexp Empty = 0"
| "NumSubexp Bol = 0"
| "NumSubexp (Chars negated items) = 0"
| "NumSubexp (Star r) = NumSubexp r"
| "NumSubexp (Opt r) = NumSubexp r"
| "NumSubexp (Cat r1 r2) = NumSubexp r1 + NumSubexp r2"
| "NumSubexp (Cap n r) = Suc (NumSubexp r)"

definition MatchString :: "regex \<Rightarrow> string \<Rightarrow> bool" where
  "MatchString r s = (search r 0 s \<noteq> None)"

text \<open>
  \<^verbatim>\<open>FindStringSubmatch\<close>: the text of the match followed by the text of each group, the
  empty string for a group that took no part in the match; \<^verbatim>\<open>nil\<close> (here the empty list)
  when there is no match.
\<close>

definition FindStringSubmatch :: "regex \<Rightarrow> string \<Rightarrow> string list" where
  "FindStringSubmatch r s =
     (case search r 0 s of
        None \<Rightarrow> []
      | Some (start, st) \<Rightarrow>
          take (fst st - start) (drop start s) #
          map (\<lambda>k. case snd (snd st) k of None \<Rightarrow> [] | Some t \<Rightarrow> t) [1 ..< Suc (NumSubexp r)])"

subsection \<open>\<^verbatim>\<open>strings.Split\<close>\<close>

fun genSplit :: "string \<Rightarrow> string \<Rightarrow> string \<Rightarrow> string list" where
  "genSplit [] sep cur = [cur]"
| "genSplit (c # cs) sep cur =
     (if take (length sep) (c # cs) = sep
      then cur # genSplit (drop (length sep - 1) cs) sep []
      else genSplit cs sep (cur @ [c]))"

definition Split :: "string \<Rightarrow> string \<Rightarrow> string list" where
  "Split s sep = (if sep = [] then map (\<lambda>c. [c]) s else genSplit s sep [])"

section \<open>The volume helpers of \<^verbatim>\<open>engine/install.go\<close>\<close>

text \<open>
  The pattern of \<^verbatim>\<open>splitVolumeParts\<close>, piece by piece:
  \<^verbatim>\<open>^((?:[\w]\:)?[^\:]*)\:((?:[\w]\:)?[^\:]*)(?:\:([rwom]*))?\<close>
\<close>

definition pattern :: string where
  "pattern = concat
     [''^((?:['', [backslash], ''w]'', [backslash], '':)?[^'', [backslash], '':]*)'',
      [backslash], '':'',
      ''((?:['', [backslash], ''w]'', [backslash], '':)?[^'', [backslash], '':]*)'',
      ''(?:'', [backslash], '':([rwom]*))?'']"

text \<open>\<^verbatim>\<open>xs[1:]\<close> panics on a slice shorter than one element (so on \<^verbatim>\<open>nil\<close>).\<close>

definition slice_from1 :: "'a list \<Rightarrow> 'a list go" where
  "slice_from1 xs = (if length xs < 1 then Panic else Return (drop 1 xs))"

definition splitVolumeParts :: "string \<Rightarrow> (string list \<times> error option) go" where
  "splitVolumeParts volumeParts =
     (case regexp_Compile pattern of
        Inl err \<Rightarrow> Return ([], Some err)
      | Inr r \<Rightarrow>
          if MatchString r volumeParts then
            (case slice_from1 (FindStringSubmatch r volumeParts) of
               Panic \<Rightarrow> Panic
             | Return results \<Rightarrow> Return (filter (\<lambda>item. item \<noteq> []) results, None))
          else Return (Split volumeParts '':'', None))"

text \<open>
  \<^verbatim>\<open>toVol\<close>: the loop over \<open>paths\<close>, with the set built so far. An entry whose split
  reports an error or yields fewer than two parts is passed over.
\<close>

fun toVol_loop :: "string list \<Rightarrow> string set \<Rightarrow> string set go" where
  "toVol_loop [] vset = Return vset"
| "toVol_loop (path # paths) vset =
     (case splitVolumeParts path of
        Panic \<Rightarrow> Panic
      | Return (parts, err) \<Rightarrow>
          if err \<noteq> None then toVol_loop paths vset
          else if length parts < 2 then toVol_loop paths vset
          else toVol_loop paths (insert (parts ! 1) vset))"

definition toVol :: "string list \<Rightarrow> string set go" where
  "toVol paths = toVol_loop paths {}"

section \<open>Servers, the store and the remote client\<close>

text \<open>
  Modelled from the spec: \<^verbatim>\<open>autoscaler.ServerState\<close> is declared outside
  \<^verbatim>\<open>engine/install.go\<close>. These are the lifecycle states the installer reads and writes.
\<close>

datatype ServerState = StateCreated | StateStaging | StateRunning | StateError

text \<open>
  Modelled from the spec: \<^verbatim>\<open>autoscaler.Server\<close> is declared outside \<^verbatim>\<open>engine/install.go\<close>.
  The record has the fields the installer reads or writes. The Go code holds servers by
  pointer; every pointer is used by one goroutine at a time, so the model passes values.
\<close>

record Server =
  ID :: string
  Name :: string
  Address :: string
  Region :: string
  Size :: string
  Capacity :: int
  State :: ServerState
  Error :: string

text \<open>
  Modelled from the spec: \<^verbatim>\<open>autoscaler.ServerStore\<close> is an interface declared outside
  \<^verbatim>\<open>engine/install.go\<close>. Any implementation is a state \<open>rows\<close> with the two methods the
  installer calls; \<open>Update\<close> may change the state and may fail.
\<close>

record 'st ServerStore =
  rows :: 'st
  list_state :: "'st \<Rightarrow> ServerState \<Rightarrow> Server list \<times> error option"
  update :: "'st \<Rightarrow> Server \<Rightarrow> 'st \<times> error option"

definition ListState :: "'st ServerStore \<Rightarrow> ServerState \<Rightarrow> Server list \<times> error option" where
  "ListState store st = list_state store (rows store) st"

definition Update :: "'st ServerStore \<Rightarrow> Server \<Rightarrow> 'st ServerStore \<times> error option" where
  "Update store server =
     (case update store (rows store) server of (rows', err) \<Rightarrow> (store\<lparr>rows := rows'\<rparr>, err))"

text \<open>The arguments of \<^verbatim>\<open>ContainerCreate\<close>, with the fields the installer sets.\<close>

record Config =
  Image :: string
  AttachStdout :: bool
  AttachStderr :: bool
  Env :: "string list"
  Volumes :: "string set"
  Labels :: "(string \<times> string) list"

record HostConfig =
  Binds :: "string list"
  RestartPolicy :: string

text \<open>
  \<^verbatim>\<open>io.ReadCloser\<close>, as \<^verbatim>\<open>io.Copy\<close> and \<^verbatim>\<open>Close\<close> see one: the bytes it delivers, the error that
  ends the reading (\<open>None\<close> when the stream ends with \<^verbatim>\<open>io.EOF\<close>, which is no error for
  \<^verbatim>\<open>io.Copy\<close>), and the answer of \<^verbatim>\<open>Close\<close>.
\<close>

record ReadCloser =
  body :: string
  read_error :: "error option"
  close_error :: "error option"

text \<open>
  \<^verbatim>\<open>io.Copy(ioutil.Discard, rc)\<close>: the number of bytes copied and the error of the reading;
  writing to \<^verbatim>\<open>ioutil.Discard\<close> never fails.
\<close>

definition Copy_Discard :: "ReadCloser \<Rightarrow> int \<times> error option" where
  "Copy_Discard rc = (int (length (body rc)), read_error rc)"

definition Close :: "ReadCloser \<Rightarrow> error option" where
  "Close rc = close_error rc"

text \<open>
  Modelled from the spec: the remote runtime client is an interface declared outside
  \<^verbatim>\<open>engine/install.go\<close>. Its answers are given by the remote host: \<open>ContainerList k\<close> is
  the answer to the \<open>k\<close>-th call of the poller (from 0), the other methods answer by their
  arguments. \<^verbatim>\<open>ImagePull\<close> returns the stream of the pull and an error, \<^verbatim>\<open>ContainerCreate\<close>
  the identifier of the container and an error. The stream that comes with an error is never
  looked at.
\<close>

record Client =
  ContainerList :: "nat \<Rightarrow> error option"
  ImagePull :: "string \<Rightarrow> ReadCloser \<times> error option"
  ContainerCreate :: "Config \<Rightarrow> HostConfig \<Rightarrow> string \<Rightarrow> string \<times> error option"
  ContainerStart :: "string \<Rightarrow> error option"

type_synonym clientFunc = "Server \<Rightarrow> error + Client"

text \<open>
  The context, as the installer uses it. \<open>Done ctx k\<close> tells whether the \<open>k\<close>-th
  \<^verbatim>\<open>select\<close> of a worker's poller (from 0) takes the case \<^verbatim>\<open><-ctx.Done()\<close>; otherwise the
  timer case fires. \<open>Err ctx\<close> is what \<^verbatim>\<open>ctx.Err()\<close> returns once the context is done.
\<close>

record Context =
  Done :: "nat \<Rightarrow> bool"
  Err :: error

text \<open>
  Modelled from the spec: \<^verbatim>\<open>config.Runner\<close> is declared outside \<^verbatim>\<open>engine/install.go\<close>. Its
  fields enter the installer only through \<^verbatim>\<open>%s\<close>; each is kept as the text \<^verbatim>\<open>%s\<close> prints.
\<close>

record Runner =
  Volumes :: string
  Devices :: string
  Privileged :: string

text \<open>The installer. \<open>wg\<close> is the counter of the wait group.\<close>

record 'st installer =
  wg :: nat
  imageRef :: string
  secret :: string
  volumes :: "string list"
  host :: string
  proto :: string
  keepaliveTime :: Duration
  keepaliveTimeout :: Duration
  runner :: Runner
  servers :: "'st ServerStore"
  client :: clientFunc

text \<open>
  What a run does, in order: store updates with the record written and the store's answer,
  goroutines launched, and the steps of a worker with their outcome. \<open>EvCopy\<close> and \<open>EvClose\<close>
  carry what \<^verbatim>\<open>io.Copy\<close> and \<^verbatim>\<open>rc.Close\<close> return, which \<^verbatim>\<open>install\<close> drops.
\<close>

datatype event =
    EvUpdate Server "error option"
  | EvGo Server
  | EvClient Server "error option"
  | EvCtxDone error
  | EvTimeAfter Duration
  | EvContainerList "error option"
  | EvImagePull string "error option"
  | EvCopy int "error option"
  | EvClose "error option"
  | EvContainerCreate Config HostConfig string "error option"
  | EvContainerStart string "error option"

section \<open>Formatting\<close>

text \<open>\<^verbatim>\<open>%v\<close> and \<^verbatim>\<open>fmt.Sprint\<close> of an \<^verbatim>\<open>int\<close>: decimal, with a sign when negative.\<close>

fun digits :: "nat \<Rightarrow> string" where
  "digits n =
     (if n < 10 then [''0123456789'' ! n]
      else digits (n div 10) @ [''0123456789'' ! (n mod 10)])"

definition Sprint_int :: "int \<Rightarrow> string" where
  "Sprint_int k = (if k < 0 then CHR ''-'' # digits (nat (- k)) else digits (nat k))"

section \<open>\<^verbatim>\<open>installer.errorUpdate\<close>\<close>

type_synonym 'st outcome = "'st installer \<times> Server \<times> error option \<times> event list"

definition errorUpdate :: "'st installer \<Rightarrow> Context \<Rightarrow> Server \<Rightarrow> error option \<Rightarrow> 'st outcome" where
  "errorUpdate i ctx server err =
     (case err of
        None \<Rightarrow> (i, server, None, [])
      | Some e \<Rightarrow>
          (let server' = server\<lparr>State := StateError\<rparr>\<lparr>Error := ErrorText e\<rparr> in
           case Update (servers i) server' of
             (store', uerr) \<Rightarrow> (i\<lparr>servers := store'\<rparr>, server', Some e, [EvUpdate server' uerr])))"

definition after :: "event list \<Rightarrow> 'st outcome \<Rightarrow> 'st outcome" where
  "after pre out = (case out of (i, server, err, evs) \<Rightarrow> (i, server, err, pre @ evs))"

section \<open>\<^verbatim>\<open>installer.install\<close>\<close>

text \<open>
  The loop labelled \<^verbatim>\<open>poller\<close>. \<open>k\<close> counts the iterations, \<open>interval\<close> is the variable of
  that name, \<open>evs\<close> the events so far. The loop is left either by \<^verbatim>\<open>break poller\<close> or by the
  \<^verbatim>\<open>return\<close> of the case \<^verbatim>\<open><-ctx.Done()\<close>; it may also run forever, which is the value \<open>None\<close>.
\<close>

datatype poll_exit = BreakPoller | CtxIsDone

partial_function (option) poller ::
    "Context \<Rightarrow> Client \<Rightarrow> nat \<Rightarrow> Duration \<Rightarrow> event list \<Rightarrow> (poll_exit \<times> event list) option" where
  "poller ctx cl k interval evs =
     (if Done ctx k then Some (CtxIsDone, evs @ [EvCtxDone (Err ctx)])
      else
        (case ContainerList cl k of
           Some err \<Rightarrow>
             poller ctx cl (Suc k) Minute (evs @ [EvTimeAfter interval, EvContainerList (Some err)])
         | None \<Rightarrow> Some (BreakPoller, evs @ [EvTimeAfter interval, EvContainerList None])))"

definition docker_sock :: string where
  "docker_sock = ''/var/run/docker.sock:/var/run/docker.sock''"

definition agent_config :: "'st installer \<Rightarrow> Server \<Rightarrow> string set \<Rightarrow> Config" where
  "agent_config i instance vols =
     \<lparr> Image = imageRef i,
       AttachStdout = True,
       AttachStderr = True,
       Env =
         [''DRONE_RPC_SERVER='' @ proto i @ ''://'' @ host i,
          ''DRONE_RPC_SECRET='' @ secret i,
          ''DRONE_RUNNER_CAPACITY='' @ Sprint_int (Capacity instance),
          ''DRONE_RUNNER_NAME='' @ Name instance,
          ''DRONE_RUNNER_VOLUMES='' @ Runner.Volumes (runner i),
          ''DRONE_RUNNER_DEVICES='' @ Devices (runner i),
          ''DRONE_RUNNER_PRIVILEGED_IMAGES='' @ Privileged (runner i)],
       Volumes = vols,
       Labels =
         [(''com.centurylinklabs.watchtower.enable'', ''true''),
          (''com.centurylinklabs.watchtower.stop-signal'', ''SIGHUP''),
          (''io.drone.agent.name'', Name instance),
          (''io.drone.agent.zone'', Region instance),
          (''io.drone.agent.size'', Size instance),
          (''io.drone.agent.instance'', ID instance),
          (''io.drone.agent.capacity'', Sprint_int (Capacity instance))] \<rparr>"

definition agent_host_config :: "'st installer \<Rightarrow> HostConfig" where
  "agent_host_config i = \<lparr> Binds = volumes i, RestartPolicy = ''always'' \<rparr>"

text \<open>
  The part of \<^verbatim>\<open>install\<close> after the poller: pull, drain and close the stream of the pull,
  create, start, mark running. Only the error that \<^verbatim>\<open>ImagePull\<close> itself returns is looked at:
  the results of \<^verbatim>\<open>io.Copy\<close> and of \<^verbatim>\<open>rc.Close\<close> are not assigned, so whatever they are the
  next statement runs. The assignment to \<^verbatim>\<open>i.volumes\<close> before \<^verbatim>\<open>ContainerCreate\<close> writes the
  installer's field.
\<close>

definition provision :: "'st installer \<Rightarrow> Context \<Rightarrow> Server \<Rightarrow> Client \<Rightarrow> 'st outcome go" where
  "provision i ctx instance cl =
     (case ImagePull cl (imageRef i) of
        (rc, Some err) \<Rightarrow>
          Return (after [EvImagePull (imageRef i) (Some err)] (errorUpdate i ctx instance (Some err)))
      | (rc, None) \<Rightarrow>
          (let pulled = [EvImagePull (imageRef i) None,
                         EvCopy (fst (Copy_Discard rc)) (snd (Copy_Discard rc)),
                         EvClose (Close rc)];
               i1 = i\<lparr>volumes := volumes i @ [docker_sock]\<rparr> in
           case toVol (volumes i1) of
             Panic \<Rightarrow> Panic
           | Return vols \<Rightarrow>
               (let cfg = agent_config i1 instance vols; hc = agent_host_config i1 in
                case ContainerCreate cl cfg hc ''agent'' of
                  (res_ID, Some err) \<Rightarrow>
                    Return (after (pulled @ [EvContainerCreate cfg hc ''agent'' (Some err)])
                              (errorUpdate i1 ctx instance (Some err)))
                | (res_ID, None) \<Rightarrow>
                    (case ContainerStart cl res_ID of
                       Some err \<Rightarrow>
                         Return (after (pulled @ [EvContainerCreate cfg hc ''agent'' None,
                                                  EvContainerStart res_ID (Some err)])
                                   (errorUpdate i1 ctx instance (Some err)))
                     | None \<Rightarrow>
                         (let instance' = instance\<lparr>State := StateRunning\<rparr> in
                          case Update (servers i1) instance' of
                            (store', uerr) \<Rightarrow>
                              Return (i1\<lparr>servers := store'\<rparr>, instance', uerr,
                                      pulled @ [EvContainerCreate cfg hc ''agent'' None,
                                                EvContainerStart res_ID None,
                                                EvUpdate instance' uerr]))))))"

text \<open>
  \<^verbatim>\<open>install\<close>: the updated installer, the server record as the worker leaves it, the error
  returned and the events, in a \<^verbatim>\<open>Return\<close>; \<open>Panic\<close> when the call panics; \<open>None\<close> when the
  poller never ends.
\<close>

definition install :: "'st installer \<Rightarrow> Context \<Rightarrow> Server \<Rightarrow> 'st outcome go option" where
  "install i ctx instance =
     (case client i instance of
        Inl err \<Rightarrow>
          Some (Return (after [EvClient instance (Some err)]
                          (errorUpdate i ctx instance (Some err))))
      | Inr cl \<Rightarrow>
          (case poller ctx cl 0 0 [EvClient instance None] of
             None \<Rightarrow> None
           | Some (CtxIsDone, evs) \<Rightarrow>
               Some (Return (after evs (errorUpdate i ctx instance (Some (Err ctx)))))
           | Some (BreakPoller, evs) \<Rightarrow>
               (case provision i ctx instance cl of
                  Panic \<Rightarrow> Some Panic
                | Return out \<Rightarrow> Some (Return (after evs out)))))"

section \<open>\<^verbatim>\<open>installer.Install\<close>\<close>

text \<open>
  The body of the loop over the listed servers, up to the launch: the record is set to
  \<^verbatim>\<open>staging\<close> and written to the store; on an error \<^verbatim>\<open>Install\<close> returns it, otherwise the wait
  group is incremented and the goroutine of this server is launched.
\<close>

definition stage :: "Server \<Rightarrow> Server" where
  "stage server = server\<lparr>State := StateStaging\<rparr>"

definition Install_body :: "'st installer \<Rightarrow> Server \<Rightarrow> 'st installer \<times> error option" where
  "Install_body i server =
     (case Update (servers i) (stage server) of
        (store', err) \<Rightarrow>
          if err \<noteq> None then (i\<lparr>servers := store'\<rparr>, err)
          else (i\<lparr>servers := store', wg := Suc (wg i)\<rparr>, None))"

text \<open>
  The loop: the installer, the error returned, the servers whose goroutine was launched (in
  the order of launch) and the events of the calling goroutine.
\<close>

fun Install_loop :: "'st installer \<Rightarrow> Server list \<Rightarrow>
    'st installer \<times> error option \<times> Server list \<times> event list" where
  "Install_loop i [] = (i, None, [], [])"
| "Install_loop i (server # rest) =
     (case Install_body i server of
        (i', Some err) \<Rightarrow> (i', Some err, [], [EvUpdate (stage server) (Some err)])
      | (i', None) \<Rightarrow>
          (case Install_loop i' rest of
             (i'', ret, launched, evs) \<Rightarrow>
               (i'', ret, stage server # launched,
                EvUpdate (stage server) None # EvGo (stage server) # evs)))"

definition Install :: "'st installer \<Rightarrow> Context \<Rightarrow>
    'st installer \<times> error option \<times> Server list \<times> event list" where
  "Install i ctx =
     (case ListState (servers i) StateCreated of
        (listed, Some err) \<Rightarrow> (i, Some err, [], [])
      | (listed, None) \<Rightarrow> Install_loop i listed)"

section \<open>Reading a trace\<close>

text \<open>The records handed to \<^verbatim>\<open>servers.Update\<close>, in order.\<close>

fun written :: "event list \<Rightarrow> Server list" where
  "written [] = []"
| "written (EvUpdate server r # evs) = server # written evs"
| "written (ev # evs) = written evs"

text \<open>
  The events of the first \<open>n\<close> attempts of the poller: before each attempt the timer, of zero
  before the first and of one minute before the others, then \<^verbatim>\<open>ContainerList\<close> with the answer
  of the host.
\<close>

definition probes :: "Client \<Rightarrow> nat \<Rightarrow> event list" where
  "probes cl n =
     concat (map (\<lambda>j. [EvTimeAfter (if j = 0 then 0 else Minute),
                        EvContainerList (ContainerList cl j)]) [0..<n])"

section \<open>Goroutines\<close>

text \<open>
  \<^verbatim>\<open>Install\<close> launches one goroutine per server and returns; a goroutine may run as soon as it
  is launched. The system below keeps the installer that all goroutines share, the servers
  the loop of \<^verbatim>\<open>Install\<close> has still to handle, what \<^verbatim>\<open>Install\<close> returned once it has, the
  goroutines launched and not yet run, and the events so far. A move is either one
  iteration of the loop of \<^verbatim>\<open>Install\<close>, or the whole body of a launched goroutine
  (\<^verbatim>\<open>i.install(ctx, server); i.wg.Done()\<close>) run without interruption. These are some of the
  interleavings Go allows, not all of them.
\<close>

record 'st system =
  shared :: "'st installer"
  todo :: "Server list"
  returned :: "error option option"
  ready :: "Server list"
  trace :: "event list"

datatype move = Main | Worker nat

definition sched_start :: "'st installer \<Rightarrow> 'st system" where
  "sched_start i =
     (case ListState (servers i) StateCreated of
        (listed, Some err) \<Rightarrow>
          \<lparr> shared = i, todo = [], returned = Some (Some err), ready = [], trace = [] \<rparr>
      | (listed, None) \<Rightarrow>
          \<lparr> shared = i, todo = listed, returned = None, ready = [], trace = [] \<rparr>)"

fun sched_step :: "Context \<Rightarrow> move \<Rightarrow> 'st system \<Rightarrow> 'st system option" where
  "sched_step ctx Main sys =
     (if returned sys \<noteq> None then None
      else
        (case todo sys of
           [] \<Rightarrow> Some (sys\<lparr>returned := Some None\<rparr>)
         | server # rest \<Rightarrow>
             (case Install_body (shared sys) server of
                (i', Some err) \<Rightarrow>
                  Some (sys\<lparr>shared := i', returned := Some (Some err),
                            trace := trace sys @ [EvUpdate (stage server) (Some err)]\<rparr>)
              | (i', None) \<Rightarrow>
                  Some (sys\<lparr>shared := i', todo := rest, ready := ready sys @ [stage server],
                            trace := trace sys @
                              [EvUpdate (stage server) None, EvGo (stage server)]\<rparr>))))"
| "sched_step ctx (Worker n) sys =
     (if n < length (ready sys) then
        (case install (shared sys) ctx (ready sys ! n) of
           Some (Return (i', server', ret, evs)) \<Rightarrow>
             Some (sys\<lparr>shared := i'\<lparr>wg := wg i' - 1\<rparr>,
                       ready := take n (ready sys) @ drop (Suc n) (ready sys),
                       trace := trace sys @ evs\<rparr>)
         | Some Panic \<Rightarrow> None
         | None \<Rightarrow> None)
      else None)"

fun sched_run :: "Context \<Rightarrow> move list \<Rightarrow> 'st system \<Rightarrow> 'st system option" where
  "sched_run ctx [] sys = Some sys"
| "sched_run ctx (m # ms) sys = (case sched_step ctx m sys of None \<Rightarrow> None | Some sys' \<Rightarrow> sched_run ctx ms sys')"


text \<open>
  The states written to the store for the server with the identifier \<open>sid\<close>, in order.
\<close>

definition states_written :: "string \<Rightarrow> event list \<Rightarrow> ServerState list" where
  "states_written sid evs = map State (filter (\<lambda>s. ID s = sid) (written evs))"

text \<open>
  What every run keeps, for the servers \<open>listed\<close> when \<^verbatim>\<open>Install\<close> began, each with an
  identifier of its own: the loop has the servers from some position \<open>j\<close> on still to handle;
  the goroutines that are ready hold staged records of servers before \<open>j\<close>, one per server,
  and for each of them \<^verbatim>\<open>staging\<close> is all that was written; for a server from \<open>j\<close> on nothing
  was written, unless \<^verbatim>\<open>Install\<close> has returned and the one write is the update that failed;
  and for every identifier the states written are \<^verbatim>\<open>staging\<close>, then \<^verbatim>\<open>running\<close> or \<^verbatim>\<open>error\<close>.
\<close>

definition lifecycle_inv :: "Server list \<Rightarrow> 'st system \<Rightarrow> bool" where
  "lifecycle_inv listed sys \<longleftrightarrow>
     (\<exists>j\<le>length listed.
        todo sys = drop j listed \<and>
        set (ready sys) \<subseteq> stage ` set (take j listed) \<and>
        (\<forall>sid. sid \<notin> ID ` set (take j listed) \<longrightarrow>
           states_written sid (trace sys) = [] \<or>
           returned sys \<noteq> None \<and> states_written sid (trace sys) = [StateStaging])) \<and>
     distinct (map ID (ready sys)) \<and>
     (\<forall>s\<in>set (ready sys). states_written (ID s) (trace sys) = [StateStaging]) \<and>
     (\<forall>sid. states_written sid (trace sys) \<in>
        {[], [StateStaging], [StateStaging, StateRunning], [StateStaging, StateError]})"

section \<open>Concrete stores, clients and contexts\<close>

text \<open>
  An in-memory store: a table of records, replaced by name on update; the update of a
  server whose name is in \<open>broken\<close> fails and leaves the table as it is.
\<close>

definition memStore :: "Server list \<Rightarrow> string list \<Rightarrow> (Server list) ServerStore" where
  "memStore tab broken =
     \<lparr> rows = tab,
       list_state = (\<lambda>tab st. (filter (\<lambda>r. State r = st) tab, None)),
       update = (\<lambda>tab s.
         if Name s \<in> set broken then (tab, Some (errorString ''store: update failed''))
         else (map (\<lambda>r. if Name r = Name s then s else r) tab, None)) \<rparr>"

definition server_a :: Server where
  "server_a = \<lparr> ID = ''1'', Name = ''a'', Address = ''10.0.0.1'', Region = ''nyc1'',
       Size = ''s-1vcpu-1gb'', Capacity = 2, State = StateCreated, Error = [] \<rparr>"

definition server_b :: Server where
  "server_b = \<lparr> ID = ''2'', Name = ''b'', Address = ''10.0.0.2'', Region = ''nyc1'',
       Size = ''s-1vcpu-1gb'', Capacity = 2, State = StateCreated, Error = [] \<rparr>"

text \<open>The stream of a pull that went well: it is read to its end and closed.\<close>

definition quietStream :: ReadCloser where
  "quietStream = \<lparr> body = ''Pull complete'', read_error = None, close_error = None \<rparr>"

text \<open>A host that refuses the first \<open>n\<close> connections and then does everything asked.\<close>

definition slowClient :: "nat \<Rightarrow> Client" where
  "slowClient n =
     \<lparr> ContainerList = (\<lambda>k. if k < n then Some (errorString ''connection refused'') else None),
       ImagePull = (\<lambda>ref. (quietStream, None)),
       ContainerCreate = (\<lambda>cfg hc name. (''c0ffee'', None)),
       ContainerStart = (\<lambda>cid. None) \<rparr>"

text \<open>A host that never accepts a connection.\<close>

definition deadClient :: Client where
  "deadClient =
     \<lparr> ContainerList = (\<lambda>k. Some (errorString ''connection refused'')),
       ImagePull = (\<lambda>ref. (quietStream, None)),
       ContainerCreate = (\<lambda>cfg hc name. (''c0ffee'', None)),
       ContainerStart = (\<lambda>cid. None) \<rparr>"

text \<open>A host whose runtime refuses to create the container.\<close>

definition fullClient :: Client where
  "fullClient =
     \<lparr> ContainerList = (\<lambda>k. None),
       ImagePull = (\<lambda>ref. (quietStream, None)),
       ContainerCreate = (\<lambda>cfg hc name. ([], Some (errorString ''no space left on device''))),
       ContainerStart = (\<lambda>cid. None) \<rparr>"

text \<open>
  A host whose pull breaks off while the stream is read: \<^verbatim>\<open>ImagePull\<close> returns the stream and
  no error, the reading ends with an error. It does everything else asked.
\<close>

definition brokenStream :: ReadCloser where
  "brokenStream = \<lparr> body = ''Pulling fs layer'',
       read_error = Some (errorString ''unexpected EOF''), close_error = None \<rparr>"

definition brokenPullClient :: Client where
  "brokenPullClient =
     \<lparr> ContainerList = (\<lambda>k. None),
       ImagePull = (\<lambda>ref. (brokenStream, None)),
       ContainerCreate = (\<lambda>cfg hc name. (''c0ffee'', None)),
       ContainerStart = (\<lambda>cid. None) \<rparr>"

text \<open>A host that refuses the pull, and one that cannot start the container.\<close>

definition noImageClient :: Client where
  "noImageClient =
     \<lparr> ContainerList = (\<lambda>k. None),
       ImagePull = (\<lambda>ref. (\<lparr> body = [], read_error = None, close_error = None \<rparr>,
                           Some (errorString ''manifest unknown''))),
       ContainerCreate = (\<lambda>cfg hc name. (''c0ffee'', None)),
       ContainerStart = (\<lambda>cid. None) \<rparr>"

definition noStartClient :: Client where
  "noStartClient =
     \<lparr> ContainerList = (\<lambda>k. None),
       ImagePull = (\<lambda>ref. (quietStream, None)),
       ContainerCreate = (\<lambda>cfg hc name. (''c0ffee'', None)),
       ContainerStart = (\<lambda>cid. Some (errorString ''port is already allocated'')) \<rparr>"

text \<open>A context that is never done, and one that is done from the \<open>n\<close>-th select on.\<close>

definition background :: Context where
  "background = \<lparr> Done = (\<lambda>k. False), Err = errorString ''context canceled'' \<rparr>"

definition deadline :: "nat \<Rightarrow> Context" where
  "deadline n = \<lparr> Done = (\<lambda>k. n \<le> k), Err = errorString ''context deadline exceeded'' \<rparr>"

definition demo_installer :: "(Server list) ServerStore \<Rightarrow> clientFunc \<Rightarrow> (Server list) installer" where
  "demo_installer store cf =
     \<lparr> wg = 0, imageRef = ''drone/agent'', secret = ''s3cr3t'', volumes = [],
       host = ''drone.example.com'', proto = ''https'',
       keepaliveTime = 0, keepaliveTimeout = 0,
       runner = \<lparr> Volumes = [], Devices = [], Privileged = [] \<rparr>,
       servers = store, client = cf \<rparr>"

section \<open>The poller\<close>

lemma poller_done:
  "Done ctx m \<Longrightarrow> poller ctx cl m iv evs = Some (CtxIsDone, evs @ [EvCtxDone (Err ctx)])"
  by (subst poller.simps) simp

lemma poller_break:
  "\<not> Done ctx m \<Longrightarrow> ContainerList cl m = None \<Longrightarrow>
   poller ctx cl m iv evs = Some (BreakPoller, evs @ [EvTimeAfter iv, EvContainerList None])"
  by (subst poller.simps) simp

lemma poller_retry:
  "\<not> Done ctx m \<Longrightarrow> ContainerList cl m = Some err \<Longrightarrow>
   poller ctx cl m iv evs =
   poller ctx cl (Suc m) Minute (evs @ [EvTimeAfter iv, EvContainerList (Some err)])"
  by (subst poller.simps) simp

text \<open>As long as every attempt fails and the context is not done, the loop goes on.\<close>

lemma poller_unroll:
  assumes "k \<le> m"
    and "\<forall>j. k \<le> j \<and> j < m \<longrightarrow> \<not> Done ctx j \<and> ContainerList cl j \<noteq> None"
  shows "poller ctx cl k iv evs =
         poller ctx cl m (if m = k then iv else Minute)
           (evs @ concat (map (\<lambda>j. [EvTimeAfter (if j = k then iv else Minute),
                                      EvContainerList (ContainerList cl j)]) [k..<m]))"
  using assms
proof (induction m rule: dec_induct)
  case base
  then show ?case by simp
next
  case (step m)
  have retry: "\<not> Done ctx m" "ContainerList cl m \<noteq> None"
    using step.prems step.hyps by auto
  then obtain err where err: "ContainerList cl m = Some err" by auto
  have IH: "poller ctx cl k iv evs =
        poller ctx cl m (if m = k then iv else Minute)
          (evs @ concat (map (\<lambda>j. [EvTimeAfter (if j = k then iv else Minute),
                                     EvContainerList (ContainerList cl j)]) [k..<m]))"
    using step.IH step.prems by auto
  show ?case
    unfolding IH using step.hyps err
    by (simp add: poller_retry[OF retry(1) err])
qed

text \<open>A poller that returns has met a select that took the context or an attempt that succeeded.\<close>

lemma poller_Some_stops:
  assumes "poller ctx cl k iv evs = Some y"
  shows "\<exists>m. k \<le> m \<and>
          (\<forall>j. k \<le> j \<and> j < m \<longrightarrow> \<not> Done ctx j \<and> ContainerList cl j \<noteq> None) \<and>
          (Done ctx m \<or> ContainerList cl m = None)"
proof (rule poller.raw_induct[where P = "\<lambda>ctx cl k iv evs y. \<exists>m. k \<le> m \<and>
          (\<forall>j. k \<le> j \<and> j < m \<longrightarrow> \<not> Done ctx j \<and> ContainerList cl j \<noteq> None) \<and>
          (Done ctx m \<or> ContainerList cl m = None)", OF _ assms], goal_cases)
  case (1 f ctx cl k interval evs y)
  show ?case
  proof (cases "Done ctx k \<or> ContainerList cl k = None")
    case True
    then show ?thesis by (intro exI[of _ k]) auto
  next
    case False
    then obtain err where err: "ContainerList cl k = Some err" and nd: "\<not> Done ctx k" by auto
    from 1(2) err nd have "f ctx cl (Suc k) Minute
        (evs @ [EvTimeAfter interval, EvContainerList (Some err)]) = Some y" by simp
    then have "\<exists>m. Suc k \<le> m \<and>
       (\<forall>j. Suc k \<le> j \<and> j < m \<longrightarrow> \<not> Done ctx j \<and> ContainerList cl j \<noteq> None) \<and>
       (Done ctx m \<or> ContainerList cl m = None)"
      by (rule 1(1))
    then obtain m where m1: "Suc k \<le> m"
      and m2: "\<forall>j. Suc k \<le> j \<and> j < m \<longrightarrow> \<not> Done ctx j \<and> ContainerList cl j \<noteq> None"
      and m3: "Done ctx m \<or> ContainerList cl m = None"
      by (elim exE conjE)
    have "\<not> Done ctx j \<and> ContainerList cl j \<noteq> None" if "k \<le> j \<and> j < m" for j
    proof (cases "j = k")
      case True
      then show ?thesis using err nd by simp
    next
      case False
      with that have "Suc k \<le> j \<and> j < m" by simp
      with m2 show ?thesis by simp
    qed
    with m1 m3 show ?thesis by (intro exI[of _ m]) simp
  qed
qed

text \<open>The value of the poller after \<open>n\<close> failed attempts.\<close>

lemma poller_after_retries:
  assumes "\<forall>j<n. \<not> Done ctx j \<and> ContainerList cl j \<noteq> None"
  shows "poller ctx cl 0 0 evs =
         poller ctx cl n (if n = 0 then 0 else Minute)
           (evs @ concat (map (\<lambda>j. [EvTimeAfter (if j = 0 then 0 else Minute),
                                      EvContainerList (ContainerList cl j)]) [0..<n]))"
  using poller_unroll[of 0 n ctx cl 0 evs] assms by simp

section \<open>Claims about the poller and the error transition\<close>

text \<open>
  Claim C4. The first attempt of the connectivity probe follows a timer of zero, every later
  attempt a timer of one minute; an attempt that fails is followed by another, one that
  succeeds ends the loop; there is no bound on the number of attempts: the loop returns
  exactly when some select takes the context or some attempt succeeds, after any number \<open>n\<close>
  of failed attempts, and never returns when neither happens; and when the context is done,
  \<^verbatim>\<open>install\<close> returns what \<^verbatim>\<open>errorUpdate\<close> returns for the context's error.
\<close>

theorem poller_protocol:
  "(poller ctx cl 0 0 evs = Some (ex, evs') \<longleftrightarrow>
      (\<exists>n. (\<forall>j<n. \<not> Done ctx j \<and> ContainerList cl j \<noteq> None) \<and>
           (if Done ctx n
            then ex = CtxIsDone \<and>
                 evs' = evs @ concat (map (\<lambda>j. [EvTimeAfter (if j = 0 then 0 else Minute),
                                                  EvContainerList (ContainerList cl j)]) [0..<n])
                            @ [EvCtxDone (Err ctx)]
            else ContainerList cl n = None \<and> ex = BreakPoller \<and>
                 evs' = evs @ concat (map (\<lambda>j. [EvTimeAfter (if j = 0 then 0 else Minute),
                                                  EvContainerList (ContainerList cl j)]) [0..<Suc n])))) \<and>
   ((\<forall>k. \<not> Done ctx k \<and> ContainerList cl k \<noteq> None) \<longrightarrow> poller ctx cl 0 0 evs = None) \<and>
   (client i instance = Inr cl \<and>
    poller ctx cl 0 0 [EvClient instance None] = Some (CtxIsDone, evs'') \<longrightarrow>
      install i ctx instance =
        Some (Return (after evs'' (errorUpdate i ctx instance (Some (Err ctx))))))"
proof (intro conjI iffI impI)
  assume ret: "poller ctx cl 0 0 evs = Some (ex, evs')"
  from poller_Some_stops[OF ret] obtain n where
    retries: "\<forall>j. 0 \<le> j \<and> j < n \<longrightarrow> \<not> Done ctx j \<and> ContainerList cl j \<noteq> None"
    and stop: "Done ctx n \<or> ContainerList cl n = None"
    by (elim exE conjE)
  from retries have r: "\<forall>j<n. \<not> Done ctx j \<and> ContainerList cl j \<noteq> None" by simp
  show "\<exists>n. (\<forall>j<n. \<not> Done ctx j \<and> ContainerList cl j \<noteq> None) \<and>
           (if Done ctx n
            then ex = CtxIsDone \<and>
                 evs' = evs @ concat (map (\<lambda>j. [EvTimeAfter (if j = 0 then 0 else Minute),
                                                  EvContainerList (ContainerList cl j)]) [0..<n])
                            @ [EvCtxDone (Err ctx)]
            else ContainerList cl n = None \<and> ex = BreakPoller \<and>
                 evs' = evs @ concat (map (\<lambda>j. [EvTimeAfter (if j = 0 then 0 else Minute),
                                                  EvContainerList (ContainerList cl j)]) [0..<Suc n]))"
  proof (intro exI[of _ n] conjI r)
    show "if Done ctx n
            then ex = CtxIsDone \<and>
                 evs' = evs @ concat (map (\<lambda>j. [EvTimeAfter (if j = 0 then 0 else Minute),
                                                  EvContainerList (ContainerList cl j)]) [0..<n])
                            @ [EvCtxDone (Err ctx)]
            else ContainerList cl n = None \<and> ex = BreakPoller \<and>
                 evs' = evs @ concat (map (\<lambda>j. [EvTimeAfter (if j = 0 then 0 else Minute),
                                                  EvContainerList (ContainerList cl j)]) [0..<Suc n])"
    proof (cases "Done ctx n")
      case True
      with ret show ?thesis
        unfolding poller_after_retries[OF r] by (simp add: poller_done)
    next
      case False
      with stop have "ContainerList cl n = None" by simp
      with False ret show ?thesis
        unfolding poller_after_retries[OF r] by (simp add: poller_break)
    qed
  qed
next
  assume "\<exists>n. (\<forall>j<n. \<not> Done ctx j \<and> ContainerList cl j \<noteq> None) \<and>
           (if Done ctx n
            then ex = CtxIsDone \<and>
                 evs' = evs @ concat (map (\<lambda>j. [EvTimeAfter (if j = 0 then 0 else Minute),
                                                  EvContainerList (ContainerList cl j)]) [0..<n])
                            @ [EvCtxDone (Err ctx)]
            else ContainerList cl n = None \<and> ex = BreakPoller \<and>
                 evs' = evs @ concat (map (\<lambda>j. [EvTimeAfter (if j = 0 then 0 else Minute),
                                                  EvContainerList (ContainerList cl j)]) [0..<Suc n]))"
  then obtain n where r: "\<forall>j<n. \<not> Done ctx j \<and> ContainerList cl j \<noteq> None"
    and v: "if Done ctx n
            then ex = CtxIsDone \<and>
                 evs' = evs @ concat (map (\<lambda>j. [EvTimeAfter (if j = 0 then 0 else Minute),
                                                  EvContainerList (ContainerList cl j)]) [0..<n])
                            @ [EvCtxDone (Err ctx)]
            else ContainerList cl n = None \<and> ex = BreakPoller \<and>
                 evs' = evs @ concat (map (\<lambda>j. [EvTimeAfter (if j = 0 then 0 else Minute),
                                                  EvContainerList (ContainerList cl j)]) [0..<Suc n])"
    by (elim exE conjE)
  show "poller ctx cl 0 0 evs = Some (ex, evs')"
  proof (cases "Done ctx n")
    case True
    with v show ?thesis
      unfolding poller_after_retries[OF r] by (simp add: poller_done)
  next
    case False
    with v show ?thesis
      unfolding poller_after_retries[OF r] by (simp add: poller_break)
  qed
next
  assume forever: "\<forall>k. \<not> Done ctx k \<and> ContainerList cl k \<noteq> None"
  show "poller ctx cl 0 0 evs = None"
  proof (cases "poller ctx cl 0 0 evs")
    case None
    then show ?thesis .
  next
    case (Some y)
    from poller_Some_stops[OF Some] forever show ?thesis by blast
  qed
next
  assume "client i instance = Inr cl \<and>
    poller ctx cl 0 0 [EvClient instance None] = Some (CtxIsDone, evs'')"
  then show "install i ctx instance =
        Some (Return (after evs'' (errorUpdate i ctx instance (Some (Err ctx)))))"
    by (simp add: install_def)
qed

theorem poller_protocol_witness:
  "poller background (slowClient 2) 0 0 [] =
     Some (BreakPoller,
       [EvTimeAfter 0, EvContainerList (Some (errorString ''connection refused'')),
        EvTimeAfter Minute, EvContainerList (Some (errorString ''connection refused'')),
        EvTimeAfter Minute, EvContainerList None]) \<and>
   poller background deadClient 0 0 [] = None \<and>
   install (demo_installer (memStore [stage server_a] []) (\<lambda>s. Inr deadClient)) (deadline 2)
     (stage server_a) =
     Some (Return
       ((demo_installer (memStore [stage server_a] []) (\<lambda>s. Inr deadClient))
          \<lparr>servers := memStore [stage server_a
               \<lparr>State := StateError, Error := ''context deadline exceeded''\<rparr>] []\<rparr>,
        stage server_a\<lparr>State := StateError, Error := ''context deadline exceeded''\<rparr>,
        Some (errorString ''context deadline exceeded''),
        [EvClient (stage server_a) None,
         EvTimeAfter 0, EvContainerList (Some (errorString ''connection refused'')),
         EvTimeAfter Minute, EvContainerList (Some (errorString ''connection refused'')),
         EvCtxDone (errorString ''context deadline exceeded''),
         EvUpdate (stage server_a\<lparr>State := StateError, Error := ''context deadline exceeded''\<rparr>)
           None]))"
proof (intro conjI)
  have "\<exists>n. (\<forall>j<n. \<not> Done background j \<and> ContainerList (slowClient 2) j \<noteq> None) \<and>
      (if Done background n
       then BreakPoller = CtxIsDone \<and>
            [EvTimeAfter 0, EvContainerList (Some (errorString ''connection refused'')),
             EvTimeAfter Minute, EvContainerList (Some (errorString ''connection refused'')),
             EvTimeAfter Minute, EvContainerList None] =
            [] @ concat (map (\<lambda>j. [EvTimeAfter (if j = 0 then 0 else Minute),
                                    EvContainerList (ContainerList (slowClient 2) j)]) [0..<n])
               @ [EvCtxDone (Err background)]
       else ContainerList (slowClient 2) n = None \<and> BreakPoller = BreakPoller \<and>
            [EvTimeAfter 0, EvContainerList (Some (errorString ''connection refused'')),
             EvTimeAfter Minute, EvContainerList (Some (errorString ''connection refused'')),
             EvTimeAfter Minute, EvContainerList None] =
            [] @ concat (map (\<lambda>j. [EvTimeAfter (if j = 0 then 0 else Minute),
                                    EvContainerList (ContainerList (slowClient 2) j)]) [0..<Suc n]))"
    by (rule exI[of _ 2]) (simp add: background_def slowClient_def upt_rec less_Suc_eq)
  with poller_protocol[of background "slowClient 2" "[]" BreakPoller]
  show "poller background (slowClient 2) 0 0 [] =
     Some (BreakPoller,
       [EvTimeAfter 0, EvContainerList (Some (errorString ''connection refused'')),
        EvTimeAfter Minute, EvContainerList (Some (errorString ''connection refused'')),
        EvTimeAfter Minute, EvContainerList None])"
    by blast
next
  have "\<forall>k. \<not> Done background k \<and> ContainerList deadClient k \<noteq> None"
    by (simp add: background_def deadClient_def)
  with poller_protocol[of background deadClient "[]"]
  show "poller background deadClient 0 0 [] = None" by blast
next
  let ?i = "demo_installer (memStore [stage server_a] []) (\<lambda>s. Inr deadClient)"
  let ?evs = "[EvClient (stage server_a) None,
         EvTimeAfter 0, EvContainerList (Some (errorString ''connection refused'')),
         EvTimeAfter Minute, EvContainerList (Some (errorString ''connection refused'')),
         EvCtxDone (errorString ''context deadline exceeded'')]"
  have "\<exists>n. (\<forall>j<n. \<not> Done (deadline 2) j \<and> ContainerList deadClient j \<noteq> None) \<and>
      (if Done (deadline 2) n
       then CtxIsDone = CtxIsDone \<and>
            ?evs =
            [EvClient (stage server_a) None] @
            concat (map (\<lambda>j. [EvTimeAfter (if j = 0 then 0 else Minute),
                               EvContainerList (ContainerList deadClient j)]) [0..<n])
               @ [EvCtxDone (Err (deadline 2))]
       else ContainerList deadClient n = None \<and> CtxIsDone = BreakPoller \<and>
            ?evs =
            [EvClient (stage server_a) None] @
            concat (map (\<lambda>j. [EvTimeAfter (if j = 0 then 0 else Minute),
                               EvContainerList (ContainerList deadClient j)]) [0..<Suc n]))"
    by (rule exI[of _ 2]) (simp add: deadline_def deadClient_def upt_rec less_Suc_eq)
  with poller_protocol[of "deadline 2" deadClient "[EvClient (stage server_a) None]" CtxIsDone ?evs]
  have pol: "poller (deadline 2) deadClient 0 0 [EvClient (stage server_a) None] =
      Some (CtxIsDone, ?evs)"
    by blast
  have cl: "client ?i (stage server_a) = Inr deadClient"
    by (simp add: demo_installer_def)
  from poller_protocol[of "deadline 2" deadClient _ _ _ ?i "stage server_a" ?evs] cl pol
  have "install ?i (deadline 2) (stage server_a) =
      Some (Return (after ?evs (errorUpdate ?i (deadline 2) (stage server_a)
                                  (Some (Err (deadline 2))))))"
    by blast
  then show "install ?i (deadline 2) (stage server_a) =
     Some (Return
       (?i\<lparr>servers := memStore [stage server_a
               \<lparr>State := StateError, Error := ''context deadline exceeded''\<rparr>] []\<rparr>,
        stage server_a\<lparr>State := StateError, Error := ''context deadline exceeded''\<rparr>,
        Some (errorString ''context deadline exceeded''),
        [EvClient (stage server_a) None,
         EvTimeAfter 0, EvContainerList (Some (errorString ''connection refused'')),
         EvTimeAfter Minute, EvContainerList (Some (errorString ''connection refused'')),
         EvCtxDone (errorString ''context deadline exceeded''),
         EvUpdate (stage server_a\<lparr>State := StateError, Error := ''context deadline exceeded''\<rparr>)
           None]))"
    by (simp add: errorUpdate_def after_def Update_def memStore_def demo_installer_def
        deadline_def stage_def server_a_def Let_def)
qed

text \<open>
  Claim C10. \<^verbatim>\<open>errorUpdate\<close> returns the error it was given. Given \<^verbatim>\<open>nil\<close>, it writes nothing
  to the store and leaves the installer and the server record as they are. Given an error,
  it returns that error whatever the store answers to the update: the store's answer is
  only recorded in the event.
\<close>

theorem errorUpdate_returns_its_argument:
  "(\<exists>i' server' evs. errorUpdate i ctx server err = (i', server', err, evs)) \<and>
   (err = None \<longrightarrow> errorUpdate i ctx server err = (i, server, None, [])) \<and>
   (\<forall>e store' uerr. err = Some e \<and>
        Update (servers i) (server\<lparr>State := StateError, Error := ErrorText e\<rparr>) = (store', uerr) \<longrightarrow>
      errorUpdate i ctx server err =
        (i\<lparr>servers := store'\<rparr>, server\<lparr>State := StateError, Error := ErrorText e\<rparr>, Some e,
         [EvUpdate (server\<lparr>State := StateError, Error := ErrorText e\<rparr>) uerr]))"
  by (cases err; cases "Update (servers i) (server\<lparr>State := StateError, Error := ErrorText (the err)\<rparr>)")
     (simp_all add: errorUpdate_def Let_def)

theorem errorUpdate_returns_its_argument_witness:
  "errorUpdate (demo_installer (memStore [server_a] [''a'']) (\<lambda>s. Inr (slowClient 0))) background
     server_a (Some (errorString ''pull failed'')) =
   (demo_installer (memStore [server_a] [''a'']) (\<lambda>s. Inr (slowClient 0)),
    server_a\<lparr>State := StateError, Error := ''pull failed''\<rparr>,
    Some (errorString ''pull failed''),
    [EvUpdate (server_a\<lparr>State := StateError, Error := ''pull failed''\<rparr>)
       (Some (errorString ''store: update failed''))]) \<and>
   errorUpdate (demo_installer (memStore [server_a] [''a'']) (\<lambda>s. Inr (slowClient 0))) background
     server_a None =
   (demo_installer (memStore [server_a] [''a'']) (\<lambda>s. Inr (slowClient 0)), server_a, None, [])"
proof (rule conjI)
  have upd: "Update (servers (demo_installer (memStore [server_a] [''a'']) (\<lambda>s. Inr (slowClient 0))))
      (server_a\<lparr>State := StateError, Error := ErrorText (errorString ''pull failed'')\<rparr>) =
      (memStore [server_a] [''a''], Some (errorString ''store: update failed''))"
    by (simp add: Update_def demo_installer_def memStore_def server_a_def)
  have "Some (errorString ''pull failed'') = Some (errorString ''pull failed'') \<and>
        Update (servers (demo_installer (memStore [server_a] [''a'']) (\<lambda>s. Inr (slowClient 0))))
      (server_a\<lparr>State := StateError, Error := ErrorText (errorString ''pull failed'')\<rparr>) =
      (memStore [server_a] [''a''], Some (errorString ''store: update failed''))"
    using upd by simp
  with errorUpdate_returns_its_argument[of
      "demo_installer (memStore [server_a] [''a'']) (\<lambda>s. Inr (slowClient 0))" background server_a
      "Some (errorString ''pull failed'')"]
  have "errorUpdate (demo_installer (memStore [server_a] [''a'']) (\<lambda>s. Inr (slowClient 0))) background
     server_a (Some (errorString ''pull failed'')) =
     ((demo_installer (memStore [server_a] [''a'']) (\<lambda>s. Inr (slowClient 0)))
        \<lparr>servers := memStore [server_a] [''a'']\<rparr>,
      server_a\<lparr>State := StateError, Error := ErrorText (errorString ''pull failed'')\<rparr>,
      Some (errorString ''pull failed''),
      [EvUpdate (server_a\<lparr>State := StateError, Error := ErrorText (errorString ''pull failed'')\<rparr>)
         (Some (errorString ''store: update failed''))])"
    by blast
  then show "errorUpdate (demo_installer (memStore [server_a] [''a'']) (\<lambda>s. Inr (slowClient 0)))
     background server_a (Some (errorString ''pull failed'')) =
   (demo_installer (memStore [server_a] [''a'']) (\<lambda>s. Inr (slowClient 0)),
    server_a\<lparr>State := StateError, Error := ''pull failed''\<rparr>,
    Some (errorString ''pull failed''),
    [EvUpdate (server_a\<lparr>State := StateError, Error := ''pull failed''\<rparr>)
       (Some (errorString ''store: update failed''))])"
    by (simp add: demo_installer_def)
next
  from errorUpdate_returns_its_argument[of
      "demo_installer (memStore [server_a] [''a'']) (\<lambda>s. Inr (slowClient 0))" background server_a
      None]
  show "errorUpdate (demo_installer (memStore [server_a] [''a'']) (\<lambda>s. Inr (slowClient 0)))
     background server_a None =
   (demo_installer (memStore [server_a] [''a'']) (\<lambda>s. Inr (slowClient 0)), server_a, None, [])"
    by blast
qed

section \<open>The volume helpers\<close>

text \<open>The constant pattern compiles, to this syntax tree.\<close>

lemma compile_pattern:
  "regexp_Compile pattern =
     Inr (Cat Bol
          (Cat (Cap 1 (Cat (Opt (Cat (Chars False [WordClass]) (Chars False [Ch CHR '':''])))
                           (Star (Chars True [Ch CHR '':'']))))
          (Cat (Chars False [Ch CHR '':''])
          (Cat (Cap 2 (Cat (Opt (Cat (Chars False [WordClass]) (Chars False [Ch CHR '':''])))
                           (Star (Chars True [Ch CHR '':'']))))
               (Opt (Cat (Chars False [Ch CHR '':''])
                         (Cap 3 (Star (Chars False [Ch CHR ''r'', Ch CHR ''w'', Ch CHR ''o'',
                                                    Ch CHR ''m''])))))))))"
  by (simp add: regexp_Compile_def pattern_def backslash_def is_alnum_def)

lemmas eval_defs = splitVolumeParts_def compile_pattern MatchString_def
  FindStringSubmatch_def slice_from1_def in_class_def is_word_char_def Split_def backslash_def

lemma split_a_b: "splitVolumeParts ''a:b'' = Return ([''a'', ''b''], None)"
  by (simp add: eval_defs)

lemma split_a_b_ro: "splitVolumeParts ''a:b:ro'' = Return ([''a:b'', ''ro''], None)"
  by (simp add: eval_defs)

lemma split_drive_letters: "splitVolumeParts (''C:'' @ [backslash] @ ''x:C:'' @ [backslash] @ ''y'')
   = Return ([''C:'' @ [backslash] @ ''x'', ''C:'' @ [backslash] @ ''y''], None)"
  by (simp add: eval_defs)

lemma split_noseparator: "splitVolumeParts ''noseparator'' = Return ([''noseparator''], None)"
  by (simp add: eval_defs)

lemma split_docker_sock: "splitVolumeParts docker_sock = Return ([''/var/run/docker.sock'', ''/var/run/docker.sock''], None)"
  by (simp add: eval_defs docker_sock_def)

text \<open>Matching only consumes input: what is left after a match is a suffix of what was left before.\<close>

lemma star_from_suffix:
  assumes "\<And>st st'. st' \<in> set (step st) \<Longrightarrow> \<exists>pre. fst (snd st) = pre @ fst (snd st')"
  shows "st' \<in> set (star_from step n st) \<Longrightarrow> \<exists>pre. fst (snd st) = pre @ fst (snd st')"
proof (induction n arbitrary: st)
  case 0
  then show ?case by simp
next
  case (Suc n)
  from Suc.prems consider "st' = st"
    | mid where "mid \<in> set (step st)" "st' \<in> set (star_from step n mid)"
    by auto
  then show ?case
  proof cases
    case 1
    then show ?thesis by simp
  next
    case 2
    from assms[OF 2(1)] obtain p1 where p1: "fst (snd st) = p1 @ fst (snd mid)" by blast
    from Suc.IH[OF 2(2)] obtain p2 where p2: "fst (snd mid) = p2 @ fst (snd st')" by blast
    from p1 p2 have "fst (snd st) = (p1 @ p2) @ fst (snd st')" by simp
    then show ?thesis by blast
  qed
qed

lemma backtrack_suffix:
  "st' \<in> set (backtrack r st) \<Longrightarrow> \<exists>pre. fst (snd st) = pre @ fst (snd st')"
proof (induction r arbitrary: st st')
  case Empty
  then show ?case by simp
next
  case Bol
  then show ?case by (simp split: if_splits)
next
  case (Chars negated items)
  then show ?case by (cases "fst (snd st)") (auto split: if_splits)
next
  case (Star r)
  have step: "\<And>s s'. s' \<in> set (backtrack r s) \<Longrightarrow> \<exists>pre. fst (snd s) = pre @ fst (snd s')"
    using Star.IH by blast
  from Star.prems have "st' \<in> set (star_from (backtrack r) (length (fst (snd st))) st)" by simp
  with star_from_suffix[of "backtrack r" st' "length (fst (snd st))" st] step
  show ?case by blast
next
  case (Opt r)
  from Opt.prems consider "st' \<in> set (backtrack r st)" | "st' = st" by auto
  then show ?case
  proof cases
    case 1
    then show ?thesis by (rule Opt.IH)
  next
    case 2
    then show ?thesis by simp
  qed
next
  case (Cat r1 r2)
  from Cat.prems obtain mid where mid: "mid \<in> set (backtrack r1 st)" "st' \<in> set (backtrack r2 mid)"
    by auto
  from Cat.IH(1)[OF mid(1)] obtain p1 where p1: "fst (snd st) = p1 @ fst (snd mid)" by blast
  from Cat.IH(2)[OF mid(2)] obtain p2 where p2: "fst (snd mid) = p2 @ fst (snd st')" by blast
  from p1 p2 have "fst (snd st) = (p1 @ p2) @ fst (snd st')" by simp
  then show ?case by blast
next
  case (Cap n r)
  from Cap.prems obtain mid where mid: "mid \<in> set (backtrack r st)"
    "fst (snd st') = fst (snd mid)" by auto
  from Cap.IH[OF mid(1)] mid(2) show ?case by simp
qed

lemma colon_needs_colon:
  "CHR '':'' \<notin> set (fst (snd st)) \<Longrightarrow> backtrack (Chars False [Ch CHR '':'']) st = []"
  by (cases "fst (snd st)") (auto simp: in_class_def)

lemma pattern_needs_colon:
  assumes "CHR '':'' \<notin> set (fst (snd st))"
  shows "backtrack (Cat Bol (Cat (Cap n g1) (Cat (Chars False [Ch CHR '':'']) rest))) st = []"
proof -
  have inner: "backtrack (Cat (Cap n g1) (Cat (Chars False [Ch CHR '':'']) rest)) st = []"
  proof -
    have "backtrack (Cat (Chars False [Ch CHR '':'']) rest) mid = []"
      if "mid \<in> set (backtrack (Cap n g1) st)" for mid
    proof -
      from backtrack_suffix[OF that] obtain pre where "fst (snd st) = pre @ fst (snd mid)" by blast
      with assms have "CHR '':'' \<notin> set (fst (snd mid))" by auto
      then show ?thesis using colon_needs_colon by simp
    qed
    then show ?thesis by (subst backtrack.simps(6)) (simp del: backtrack.simps)
  qed
  show ?thesis
    by (subst backtrack.simps(6)) (simp add: inner del: backtrack.simps(3-7))
qed

lemma search_needs_colon:
  "CHR '':'' \<notin> set s \<Longrightarrow>
   search (Cat Bol (Cat (Cap n g1) (Cat (Chars False [Ch CHR '':'']) rest))) pos s = None"
proof (induction s arbitrary: pos)
  case Nil
  then show ?case by (simp add: pattern_needs_colon del: backtrack.simps)
next
  case (Cons x xs)
  then show ?case by (simp add: pattern_needs_colon del: backtrack.simps)
qed

lemma genSplit_no_sep:
  "c \<notin> set s \<Longrightarrow> genSplit s [c] cur = [cur @ s]"
  by (induction s arbitrary: cur) auto

lemma splitVolumeParts_no_colon:
  "CHR '':'' \<notin> set p \<Longrightarrow> splitVolumeParts p = Return ([p], None)"
  by (simp add: splitVolumeParts_def compile_pattern MatchString_def search_needs_colon
      Split_def genSplit_no_sep)

lemma splitVolumeParts_returns:
  "\<exists>parts. splitVolumeParts p = Return (parts, None)"
  by (simp add: splitVolumeParts_def compile_pattern MatchString_def FindStringSubmatch_def
      slice_from1_def split: option.splits)

lemma toVol_loop_targets:
  "toVol_loop paths vset =
   Return (vset \<union> {parts ! 1 | p parts. p \<in> set paths \<and>
                     splitVolumeParts p = Return (parts, None) \<and> 2 \<le> length parts})"
proof (induction paths arbitrary: vset)
  case Nil
  then show ?case by simp
next
  case (Cons path paths)
  obtain parts where parts: "splitVolumeParts path = Return (parts, None)"
    using splitVolumeParts_returns by blast
  show ?case
  proof (cases "length parts < 2")
    case True
    with parts Cons.IH[of vset] show ?thesis by (fastforce simp: not_less)
  next
    case False
    with parts Cons.IH[of "insert (parts ! 1) vset"] show ?thesis by (fastforce simp: not_less)
  qed
qed

lemma toVol_targets:
  "toVol paths = Return {parts ! 1 | p parts. p \<in> set paths \<and>
                     splitVolumeParts p = Return (parts, None) \<and> 2 \<le> length parts}"
  by (simp add: toVol_def toVol_loop_targets)

lemma toVol_skip:
  assumes "splitVolumeParts q = Return (parts, None)" "length parts < 2"
  shows "toVol (xs @ q # ys) = toVol (xs @ ys)"
proof -
  have "{ps ! 1 | p ps. p \<in> set (xs @ q # ys) \<and>
            splitVolumeParts p = Return (ps, None) \<and> 2 \<le> length ps} =
        {ps ! 1 | p ps. p \<in> set (xs @ ys) \<and>
            splitVolumeParts p = Return (ps, None) \<and> 2 \<le> length ps}"
    using assms by fastforce
  then show ?thesis by (simp only: toVol_targets)
qed

text \<open>
  Claim C8. \<^verbatim>\<open>toVol\<close> returns for every list of strings, without a panic: its result is the set
  of the second parts of the entries that split into at least two parts. The pattern of
  \<^verbatim>\<open>splitVolumeParts\<close> compiles, so the split never reports an error. An entry with fewer
  than two parts, such as any string without a colon, changes nothing in the result, whatever
  stands before and behind it.
\<close>

theorem toVol_never_fails:
  "toVol paths = Return {parts ! 1 | p parts. p \<in> set paths \<and>
                     splitVolumeParts p = Return (parts, None) \<and> 2 \<le> length parts} \<and>
   (\<exists>r. regexp_Compile pattern = Inr r) \<and>
   (\<exists>parts. splitVolumeParts q = Return (parts, None)) \<and>
   (splitVolumeParts q = Return (parts, None) \<and> length parts < 2 \<longrightarrow>
      toVol (xs @ q # ys) = toVol (xs @ ys)) \<and>
   (CHR '':'' \<notin> set q \<longrightarrow>
      splitVolumeParts q = Return ([q], None) \<and> toVol (xs @ q # ys) = toVol (xs @ ys))"
proof (intro conjI impI)
  show "toVol paths = Return {parts ! 1 | p parts. p \<in> set paths \<and>
                     splitVolumeParts p = Return (parts, None) \<and> 2 \<le> length parts}"
    by (rule toVol_targets)
  show "\<exists>r. regexp_Compile pattern = Inr r"
    by (simp add: compile_pattern)
  show "\<exists>parts. splitVolumeParts q = Return (parts, None)"
    by (rule splitVolumeParts_returns)
  show "toVol (xs @ q # ys) = toVol (xs @ ys)"
    if "splitVolumeParts q = Return (parts, None) \<and> length parts < 2"
    using that toVol_skip by blast
  show "splitVolumeParts q = Return ([q], None)" if "CHR '':'' \<notin> set q"
    using that by (rule splitVolumeParts_no_colon)
  show "toVol (xs @ q # ys) = toVol (xs @ ys)" if nc: "CHR '':'' \<notin> set q"
  proof -
    from nc have "splitVolumeParts q = Return ([q], None)"
      by (rule splitVolumeParts_no_colon)
    then show ?thesis by (rule toVol_skip) simp
  qed
qed

theorem toVol_never_fails_witness:
  "CHR '':'' \<notin> set ''noseparator'' \<and>
   splitVolumeParts ''noseparator'' = Return ([''noseparator''], None) \<and>
   toVol [''a:b'', ''noseparator'', ''/data:/data:ro''] = Return {''b'', ''/data''} \<and>
   splitVolumeParts ''a:'' = Return ([''a''], None) \<and>
   toVol [''a:'', ''/data:/data:ro''] = Return {''/data''}"
proof -
  have nc: "CHR '':'' \<notin> set ''noseparator''" by simp
  from toVol_never_fails[of _ "''noseparator''" _ "[''a:b'']" "[''/data:/data:ro'']"] nc
  have skip: "splitVolumeParts ''noseparator'' = Return ([''noseparator''], None)"
    "toVol ([''a:b''] @ ''noseparator'' # [''/data:/data:ro'']) =
     toVol ([''a:b''] @ [''/data:/data:ro''])"
    by blast+
  have ab: "splitVolumeParts ''a:b'' = Return ([''a'', ''b''], None)"
    by (simp add: eval_defs)
  have data: "splitVolumeParts ''/data:/data:ro'' = Return ([''/data'', ''/data'', ''ro''], None)"
    by (simp add: eval_defs)
  from ab data have two: "toVol ([''a:b''] @ [''/data:/data:ro'']) = Return {''b'', ''/data''}"
    by (simp add: toVol_def insert_commute)
  have short: "splitVolumeParts ''a:'' = Return ([''a''], None)"
    by (simp add: eval_defs)
  then have "splitVolumeParts ''a:'' = Return ([''a''], None) \<and> length [''a''] < 2" by simp
  with toVol_never_fails[of _ "''a:''" "[''a'']" "[]" "[''/data:/data:ro'']"]
  have "toVol ([] @ ''a:'' # [''/data:/data:ro'']) = toVol ([] @ [''/data:/data:ro''])"
    by blast
  moreover from data have "toVol ([] @ [''/data:/data:ro'']) = Return {''/data''}"
    by (simp add: toVol_def)
  ultimately have one: "toVol [''a:'', ''/data:/data:ro''] = Return {''/data''}" by simp
  from skip two nc short one show ?thesis by simp
qed

text \<open>
  Claim C7, as the spec states it: \<^verbatim>\<open>toVol\<close> of the three bind specifications is the set of
  \<^verbatim>\<open>b\<close> and \<^verbatim>\<open>C:\y\<close>. It is not: in \<^verbatim>\<open>a:b:ro\<close> the pattern reads the leading \<^verbatim>\<open>a:\<close> as a drive
  letter, so the first group is \<^verbatim>\<open>a:b\<close> and the second part is \<^verbatim>\<open>ro\<close>.
\<close>

theorem toVol_example_counterexample:
  "toVol [''a:b'', ''a:b:ro'', ''C:'' @ [backslash] @ ''x:C:'' @ [backslash] @ ''y''] \<noteq>
   Return {''b'', ''C:'' @ [backslash] @ ''y''}"
proof
  assume claimed:
    "toVol [''a:b'', ''a:b:ro'', ''C:'' @ [backslash] @ ''x:C:'' @ [backslash] @ ''y''] =
     Return {''b'', ''C:'' @ [backslash] @ ''y''}"
  have actual:
    "toVol [''a:b'', ''a:b:ro'', ''C:'' @ [backslash] @ ''x:C:'' @ [backslash] @ ''y''] =
     Return {''b'', ''ro'', ''C:'' @ [backslash] @ ''y''}"
    using split_a_b split_a_b_ro split_drive_letters by (simp add: toVol_def insert_commute)
  from claimed[unfolded actual]
  have sets: "{''b'', ''ro'', ''C:'' @ [backslash] @ ''y''} = {''b'', ''C:'' @ [backslash] @ ''y''}"
    by (simp only: go.inject)
  have "''ro'' \<in> {''b'', ''ro'', ''C:'' @ [backslash] @ ''y''}" by simp
  then have "''ro'' \<in> {''b'', ''C:'' @ [backslash] @ ''y''}" unfolding sets .
  then show False by simp
qed

text \<open>
  Claim C7, amended: \<^verbatim>\<open>toVol\<close> of the three bind specifications is the set of \<^verbatim>\<open>b\<close>, \<^verbatim>\<open>ro\<close> and
  \<^verbatim>\<open>C:\y\<close>.
\<close>

theorem toVol_example:
  "toVol [''a:b'', ''a:b:ro'', ''C:'' @ [backslash] @ ''x:C:'' @ [backslash] @ ''y''] =
   Return {''b'', ''ro'', ''C:'' @ [backslash] @ ''y''}"
  using split_a_b split_a_b_ro split_drive_letters by (simp add: toVol_def insert_commute)

section \<open>The shape of a bootstrap\<close>

lemma errorUpdate_Some:
  "errorUpdate i ctx server (Some e) =
     (i\<lparr>servers := fst (Update (servers i) (server\<lparr>State := StateError, Error := ErrorText e\<rparr>))\<rparr>,
      server\<lparr>State := StateError, Error := ErrorText e\<rparr>, Some e,
      [EvUpdate (server\<lparr>State := StateError, Error := ErrorText e\<rparr>)
         (snd (Update (servers i) (server\<lparr>State := StateError, Error := ErrorText e\<rparr>)))])"
  by (simp add: errorUpdate_def Let_def split: prod.splits)

lemma written_append:
  "written (xs @ ys) = written xs @ written ys"
  by (induction xs rule: written.induct) auto

lemma written_probes:
  "written (probes cl n) = []"
  by (induction n) (simp_all add: probes_def written_append)

lemma toVol_returns:
  "\<exists>vols. toVol paths = Return vols"
  by (simp add: toVol_targets)

text \<open>The two ways the poller returns, with the events it adds.\<close>

lemma poller_succeeds:
  assumes "\<forall>j<n. \<not> Done ctx j \<and> ContainerList cl j \<noteq> None"
    and "\<not> Done ctx n" and "ContainerList cl n = None"
  shows "poller ctx cl 0 0 evs = Some (BreakPoller, evs @ probes cl (Suc n))"
  unfolding poller_after_retries[OF assms(1)] probes_def using assms(2,3)
  by (simp add: poller_break)

lemma poller_cancelled:
  assumes "\<forall>j<n. \<not> Done ctx j \<and> ContainerList cl j \<noteq> None"
    and "Done ctx n"
  shows "poller ctx cl 0 0 evs = Some (CtxIsDone, evs @ probes cl n @ [EvCtxDone (Err ctx)])"
  unfolding poller_after_retries[OF assms(1)] probes_def using assms(2)
  by (simp add: poller_done)

lemma poller_result:
  assumes "poller ctx cl 0 0 evs = Some (ex, evs')"
  shows "\<exists>n. (\<forall>j<n. \<not> Done ctx j \<and> ContainerList cl j \<noteq> None) \<and>
           (Done ctx n \<and> ex = CtxIsDone \<and> evs' = evs @ probes cl n @ [EvCtxDone (Err ctx)] \<or>
            \<not> Done ctx n \<and> ContainerList cl n = None \<and> ex = BreakPoller \<and>
            evs' = evs @ probes cl (Suc n))"
proof -
  from poller_Some_stops[OF assms] obtain n where
    retries: "\<forall>j. 0 \<le> j \<and> j < n \<longrightarrow> \<not> Done ctx j \<and> ContainerList cl j \<noteq> None"
    and stop: "Done ctx n \<or> ContainerList cl n = None"
    by (elim exE conjE)
  from retries have r: "\<forall>j<n. \<not> Done ctx j \<and> ContainerList cl j \<noteq> None" by simp
  show ?thesis
  proof (cases "Done ctx n")
    case True
    from assms poller_cancelled[OF r True, of evs]
    have "ex = CtxIsDone \<and> evs' = evs @ probes cl n @ [EvCtxDone (Err ctx)]" by simp
    with r True show ?thesis by blast
  next
    case False
    with stop have ok: "ContainerList cl n = None" by simp
    from assms poller_succeeds[OF r False ok, of evs]
    have "ex = BreakPoller \<and> evs' = evs @ probes cl (Suc n)" by simp
    with r False ok show ?thesis by blast
  qed
qed

text \<open>
  \<^verbatim>\<open>install\<close>, branch by branch, from what the client factory, the context and the host
  answer: the record it leaves, the store it leaves, the error it returns and the events.
\<close>

lemma install_client_fails:
  assumes "client i inst = Inl e"
    and "Update (servers i) (inst\<lparr>State := StateError, Error := ErrorText e\<rparr>) = (store', uerr)"
  shows "install i ctx inst =
     Some (Return (i\<lparr>servers := store'\<rparr>, inst\<lparr>State := StateError, Error := ErrorText e\<rparr>, Some e,
                   [EvClient inst (Some e),
                    EvUpdate (inst\<lparr>State := StateError, Error := ErrorText e\<rparr>) uerr]))"
  using assms by (simp add: install_def errorUpdate_def after_def Let_def)

lemma install_cancelled:
  assumes "client i inst = Inr cl"
    and "\<forall>j<n. \<not> Done ctx j \<and> ContainerList cl j \<noteq> None" and "Done ctx n"
    and "Update (servers i) (inst\<lparr>State := StateError, Error := ErrorText (Err ctx)\<rparr>) = (store', uerr)"
  shows "install i ctx inst =
     Some (Return (i\<lparr>servers := store'\<rparr>,
                   inst\<lparr>State := StateError, Error := ErrorText (Err ctx)\<rparr>, Some (Err ctx),
                   [EvClient inst None] @ probes cl n @
                   [EvCtxDone (Err ctx),
                    EvUpdate (inst\<lparr>State := StateError, Error := ErrorText (Err ctx)\<rparr>) uerr]))"
  using assms(1,4) poller_cancelled[OF assms(2,3), of "[EvClient inst None]"]
  by (simp add: install_def errorUpdate_def after_def Let_def)

lemma install_provisions:
  assumes "client i inst = Inr cl"
    and "\<forall>j<n. \<not> Done ctx j \<and> ContainerList cl j \<noteq> None"
    and "\<not> Done ctx n" and "ContainerList cl n = None"
    and "provision i ctx inst cl = Return (i', inst', ret, pevs)"
  shows "install i ctx inst =
     Some (Return (i', inst', ret, [EvClient inst None] @ probes cl (Suc n) @ pevs))"
  using assms(1,5) poller_succeeds[OF assms(2,3,4), of "[EvClient inst None]"]
  by (simp add: install_def after_def)

lemma provision_pull_fails:
  assumes "ImagePull cl (imageRef i) = (rc, Some e)"
    and "Update (servers i) (inst\<lparr>State := StateError, Error := ErrorText e\<rparr>) = (store', uerr)"
  shows "provision i ctx inst cl =
     Return (i\<lparr>servers := store'\<rparr>, inst\<lparr>State := StateError, Error := ErrorText e\<rparr>, Some e,
             [EvImagePull (imageRef i) (Some e),
              EvUpdate (inst\<lparr>State := StateError, Error := ErrorText e\<rparr>) uerr])"
  using assms by (simp add: provision_def errorUpdate_def after_def Let_def)

lemma provision_create_fails:
  assumes "ImagePull cl (imageRef i) = (rc, None)"
    and "toVol (volumes i @ [docker_sock]) = Return vols"
    and "ContainerCreate cl (agent_config (i\<lparr>volumes := volumes i @ [docker_sock]\<rparr>) inst vols)
           (agent_host_config (i\<lparr>volumes := volumes i @ [docker_sock]\<rparr>)) ''agent'' = (cid, Some e)"
    and "Update (servers i) (inst\<lparr>State := StateError, Error := ErrorText e\<rparr>) = (store', uerr)"
  shows "provision i ctx inst cl =
     Return (i\<lparr>volumes := volumes i @ [docker_sock], servers := store'\<rparr>,
             inst\<lparr>State := StateError, Error := ErrorText e\<rparr>, Some e,
             [EvImagePull (imageRef i) None,
              EvCopy (fst (Copy_Discard rc)) (snd (Copy_Discard rc)), EvClose (Close rc),
              EvContainerCreate
                (agent_config (i\<lparr>volumes := volumes i @ [docker_sock]\<rparr>) inst vols)
                (agent_host_config (i\<lparr>volumes := volumes i @ [docker_sock]\<rparr>)) ''agent'' (Some e),
              EvUpdate (inst\<lparr>State := StateError, Error := ErrorText e\<rparr>) uerr])"
  using assms by (simp add: provision_def errorUpdate_def after_def Let_def)

lemma provision_start_fails:
  assumes "ImagePull cl (imageRef i) = (rc, None)"
    and "toVol (volumes i @ [docker_sock]) = Return vols"
    and "ContainerCreate cl (agent_config (i\<lparr>volumes := volumes i @ [docker_sock]\<rparr>) inst vols)
           (agent_host_config (i\<lparr>volumes := volumes i @ [docker_sock]\<rparr>)) ''agent'' = (cid, None)"
    and "ContainerStart cl cid = Some e"
    and "Update (servers i) (inst\<lparr>State := StateError, Error := ErrorText e\<rparr>) = (store', uerr)"
  shows "provision i ctx inst cl =
     Return (i\<lparr>volumes := volumes i @ [docker_sock], servers := store'\<rparr>,
             inst\<lparr>State := StateError, Error := ErrorText e\<rparr>, Some e,
             [EvImagePull (imageRef i) None,
              EvCopy (fst (Copy_Discard rc)) (snd (Copy_Discard rc)), EvClose (Close rc),
              EvContainerCreate
                (agent_config (i\<lparr>volumes := volumes i @ [docker_sock]\<rparr>) inst vols)
                (agent_host_config (i\<lparr>volumes := volumes i @ [docker_sock]\<rparr>)) ''agent'' None,
              EvContainerStart cid (Some e),
              EvUpdate (inst\<lparr>State := StateError, Error := ErrorText e\<rparr>) uerr])"
  using assms by (simp add: provision_def errorUpdate_def after_def Let_def)

lemma provision_runs:
  assumes "ImagePull cl (imageRef i) = (rc, None)"
    and "toVol (volumes i @ [docker_sock]) = Return vols"
    and "ContainerCreate cl (agent_config (i\<lparr>volumes := volumes i @ [docker_sock]\<rparr>) inst vols)
           (agent_host_config (i\<lparr>volumes := volumes i @ [docker_sock]\<rparr>)) ''agent'' = (cid, None)"
    and "ContainerStart cl cid = None"
    and "Update (servers i) (inst\<lparr>State := StateRunning\<rparr>) = (store', uerr)"
  shows "provision i ctx inst cl =
     Return (i\<lparr>volumes := volumes i @ [docker_sock], servers := store'\<rparr>,
             inst\<lparr>State := StateRunning\<rparr>, uerr,
             [EvImagePull (imageRef i) None,
              EvCopy (fst (Copy_Discard rc)) (snd (Copy_Discard rc)), EvClose (Close rc),
              EvContainerCreate
                (agent_config (i\<lparr>volumes := volumes i @ [docker_sock]\<rparr>) inst vols)
                (agent_host_config (i\<lparr>volumes := volumes i @ [docker_sock]\<rparr>)) ''agent'' None,
              EvContainerStart cid None,
              EvUpdate (inst\<lparr>State := StateRunning\<rparr>) uerr])"
  using assms by (simp add: provision_def Let_def)

text \<open>
  Whatever the answers: \<^verbatim>\<open>install\<close> does not panic, and when it returns it has handed one
  record to the store, the one it leaves, which is the record it was given set to \<^verbatim>\<open>running\<close>,
  or set to \<^verbatim>\<open>error\<close> with the text of the error that \<^verbatim>\<open>install\<close> returns.
\<close>

lemma provision_result:
  "case provision i ctx inst cl of
     Panic \<Rightarrow> False
   | Return (i', inst', ret, evs) \<Rightarrow>
       written evs = [inst'] \<and>
       (inst' = inst\<lparr>State := StateRunning\<rparr> \<or>
        (\<exists>e. ret = Some e \<and> inst' = inst\<lparr>State := StateError, Error := ErrorText e\<rparr>))"
  by (simp add: provision_def toVol_targets errorUpdate_Some after_def Let_def
      split: option.splits prod.splits)

lemma install_result:
  assumes "install i ctx inst = Some out"
  shows "case out of
     Panic \<Rightarrow> False
   | Return (i', inst', ret, evs) \<Rightarrow>
       written evs = [inst'] \<and>
       (inst' = inst\<lparr>State := StateRunning\<rparr> \<or>
        (\<exists>e. ret = Some e \<and> inst' = inst\<lparr>State := StateError, Error := ErrorText e\<rparr>))"
proof (cases "client i inst")
  case (Inl err)
  with assms show ?thesis
    by (auto simp: install_def errorUpdate_Some after_def)
next
  case (Inr cl)
  with assms obtain ex evs1 where pol: "poller ctx cl 0 0 [EvClient inst None] = Some (ex, evs1)"
    by (auto simp: install_def split: option.splits)
  from poller_result[OF pol] obtain n where
    ev: "ex = CtxIsDone \<and> evs1 = [EvClient inst None] @ probes cl n @ [EvCtxDone (Err ctx)] \<or>
         ex = BreakPoller \<and> evs1 = [EvClient inst None] @ probes cl (Suc n)"
    by blast
  from ev show ?thesis
  proof (elim disjE conjE)
    assume ex: "ex = CtxIsDone"
      and evs1: "evs1 = [EvClient inst None] @ probes cl n @ [EvCtxDone (Err ctx)]"
    from assms Inr pol ex have "out = Return (after evs1 (errorUpdate i ctx inst (Some (Err ctx))))"
      by (simp add: install_def)
    then show ?thesis
      unfolding evs1 by (simp add: errorUpdate_Some after_def written_append written_probes)
  next
    assume ex: "ex = BreakPoller" and evs1: "evs1 = [EvClient inst None] @ probes cl (Suc n)"
    from provision_result[where i=i and ctx=ctx and inst=inst and cl=cl] obtain i' inst' ret pevs
      where prov: "provision i ctx inst cl = Return (i', inst', ret, pevs)"
      by (cases "provision i ctx inst cl") auto
    from assms Inr pol ex prov
    have out: "out = Return (i', inst', ret, evs1 @ pevs)"
      by (simp add: install_def after_def)
    have w: "written (evs1 @ pevs) = written pevs"
      unfolding evs1 by (simp add: written_append written_probes)
    show ?thesis
      using provision_result[where i=i and ctx=ctx and inst=inst and cl=cl] prov
      unfolding out by (simp only: go.case prod.case w)
  qed
qed

text \<open>Runs of the concrete installers, evaluated.\<close>

lemmas run_defs = install_def provision_def errorUpdate_def after_def Update_def ListState_def
  memStore_def demo_installer_def fullClient_def slowClient_def deadClient_def background_def
  deadline_def quietStream_def Copy_Discard_def Close_def
  poller_break poller_retry poller_done toVol_def split_docker_sock Let_def stage_def
  server_a_def server_b_def Install_def Install_body_def

section \<open>Claims about the bootstrap of one server\<close>

text \<open>
  Claim C5, as the spec states it: whenever a bootstrap step fails, the image pull among
  them, no further step runs and the record is set to \<^verbatim>\<open>error\<close> with the text of the failing
  error. The spec counts an error of the pull's stream as a failure of the pull. \<^verbatim>\<open>install\<close>
  does not: it looks at the error that \<^verbatim>\<open>ImagePull\<close> returns and at nothing the stream does. In
  the run below the call returns a stream and no error, the reading of the stream ends with
  \<^verbatim>\<open>unexpected EOF\<close>, and \<^verbatim>\<open>install\<close> goes on: the container is created and started, the
  record is set to \<^verbatim>\<open>running\<close> and its error field stays empty.
\<close>

theorem pull_stream_error_counterexample:
  "ImagePull brokenPullClient ''drone/agent'' = (brokenStream, None) \<and>
   Copy_Discard brokenStream = (16, Some (errorString ''unexpected EOF'')) \<and>
   install (demo_installer (memStore [stage server_a] []) (\<lambda>s. Inr brokenPullClient)) background
     (stage server_a) =
   Some (Return
     ((demo_installer (memStore [server_a\<lparr>State := StateRunning\<rparr>] []) (\<lambda>s. Inr brokenPullClient))
        \<lparr>volumes := [docker_sock]\<rparr>,
      server_a\<lparr>State := StateRunning\<rparr>,
      None,
      [EvClient (stage server_a) None, EvTimeAfter 0, EvContainerList None,
       EvImagePull ''drone/agent'' None,
       EvCopy 16 (Some (errorString ''unexpected EOF'')), EvClose None,
       EvContainerCreate
         (agent_config (demo_installer (memStore [] []) (\<lambda>s. Inr brokenPullClient))
            (stage server_a) {''/var/run/docker.sock''})
         \<lparr>Binds = [docker_sock], RestartPolicy = ''always''\<rparr> ''agent'' None,
       EvContainerStart ''c0ffee'' None,
       EvUpdate (server_a\<lparr>State := StateRunning\<rparr>) None])) \<and>
   State (server_a\<lparr>State := StateRunning\<rparr>) \<noteq> StateError \<and>
   Error (server_a\<lparr>State := StateRunning\<rparr>) = []"
  by (simp add: run_defs brokenPullClient_def brokenStream_def agent_host_config_def
      agent_config_def)

text \<open>
  Claim C5, amended: whenever the construction of the client fails, the context is done at a
  select of the poller, or the call of \<^verbatim>\<open>ImagePull\<close>, of \<^verbatim>\<open>ContainerCreate\<close> or of
  \<^verbatim>\<open>ContainerStart\<close> returns an error, \<^verbatim>\<open>install\<close> runs no further bootstrap step: the one thing
  it still does is hand the record to the store, set to \<^verbatim>\<open>error\<close> with its error field equal
  to the text of that error, and it returns that error whatever the store answers. The
  theorem gives, for each of the five failures, from what the client factory, the context and
  the host answer, all that \<^verbatim>\<open>install\<close> returns: the installer with the store as the update
  left it, the record \<open>inst'\<close>, the error, and the events in order, which end with the failed
  step and the update.
\<close>

theorem failed_step_ends_bootstrap:
  assumes "inst' = inst\<lparr>State := StateError, Error := ErrorText e\<rparr>"
    and "Update (servers i) inst' = (store', uerr)"
    and "i1 = i\<lparr>volumes := volumes i @ [docker_sock]\<rparr>"
  shows
  "(client i inst = Inl e \<longrightarrow>
      install i ctx inst =
        Some (Return (i\<lparr>servers := store'\<rparr>, inst', Some e,
                      [EvClient inst (Some e), EvUpdate inst' uerr]))) \<and>
   (client i inst = Inr cl \<and> (\<forall>j<n. \<not> Done ctx j \<and> ContainerList cl j \<noteq> None) \<and>
    Done ctx n \<and> Err ctx = e \<longrightarrow>
      install i ctx inst =
        Some (Return (i\<lparr>servers := store'\<rparr>, inst', Some e,
                      [EvClient inst None] @ probes cl n @
                      [EvCtxDone e, EvUpdate inst' uerr]))) \<and>
   (client i inst = Inr cl \<and> (\<forall>j<n. \<not> Done ctx j \<and> ContainerList cl j \<noteq> None) \<and>
    \<not> Done ctx n \<and> ContainerList cl n = None \<and>
    ImagePull cl (imageRef i) = (rc, Some e) \<longrightarrow>
      install i ctx inst =
        Some (Return (i\<lparr>servers := store'\<rparr>, inst', Some e,
                      [EvClient inst None] @ probes cl (Suc n) @
                      [EvImagePull (imageRef i) (Some e), EvUpdate inst' uerr]))) \<and>
   (client i inst = Inr cl \<and> (\<forall>j<n. \<not> Done ctx j \<and> ContainerList cl j \<noteq> None) \<and>
    \<not> Done ctx n \<and> ContainerList cl n = None \<and>
    ImagePull cl (imageRef i) = (rc, None) \<longrightarrow>
      (\<exists>vols. toVol (volumes i1) = Return vols \<and>
         (ContainerCreate cl (agent_config i1 inst vols) (agent_host_config i1) ''agent'' =
            (cid, Some e) \<longrightarrow>
          install i ctx inst =
            Some (Return (i1\<lparr>servers := store'\<rparr>, inst', Some e,
                          [EvClient inst None] @ probes cl (Suc n) @
                          [EvImagePull (imageRef i) None,
                           EvCopy (fst (Copy_Discard rc)) (snd (Copy_Discard rc)),
                           EvClose (Close rc),
                           EvContainerCreate (agent_config i1 inst vols) (agent_host_config i1)
                             ''agent'' (Some e),
                           EvUpdate inst' uerr]))) \<and>
         (ContainerCreate cl (agent_config i1 inst vols) (agent_host_config i1) ''agent'' =
            (cid, None) \<and>
          ContainerStart cl cid = Some e \<longrightarrow>
          install i ctx inst =
            Some (Return (i1\<lparr>servers := store'\<rparr>, inst', Some e,
                          [EvClient inst None] @ probes cl (Suc n) @
                          [EvImagePull (imageRef i) None,
                           EvCopy (fst (Copy_Discard rc)) (snd (Copy_Discard rc)),
                           EvClose (Close rc),
                           EvContainerCreate (agent_config i1 inst vols) (agent_host_config i1)
                             ''agent'' None,
                           EvContainerStart cid (Some e),
                           EvUpdate inst' uerr]))))) \<and>
   State inst' = StateError \<and> Error inst' = ErrorText e"
proof -
  note upd = assms(2)[unfolded assms(1)]
  obtain vols where tv: "toVol (volumes i @ [docker_sock]) = Return vols"
    using toVol_returns by blast
  show ?thesis
    unfolding assms(1) assms(3)
    apply (intro conjI impI; (elim conjE)?)
    subgoal premises p
      by (rule install_client_fails[OF p upd])
    subgoal premises p
      unfolding p(4)[symmetric]
      by (rule install_cancelled[OF p(1,2,3) upd[unfolded p(4)[symmetric]]])
    subgoal premises p
      by (rule install_provisions[OF p(1,2,3,4) provision_pull_fails[OF p(5) upd]])
    subgoal premises p
      apply (intro exI[of _ vols] conjI impI; (elim conjE)?)
      subgoal using tv by simp
      subgoal premises q
        using install_provisions[OF p(1,2,3,4) provision_create_fails[OF p(5) tv _ upd]] q
        by simp
      subgoal premises q
        using install_provisions[OF p(1,2,3,4) provision_start_fails[OF p(5) tv _ _ upd]] q
        by simp
      done
    subgoal by simp
    subgoal by simp
    done
qed

theorem failed_step_ends_bootstrap_witness:
  "install (demo_installer (memStore [stage server_a] []) (\<lambda>s. Inl (errorString ''invalid address'')))
     background (stage server_a) =
   Some (Return
     (demo_installer (memStore [server_a\<lparr>State := StateError, Error := ''invalid address''\<rparr>] [])
        (\<lambda>s. Inl (errorString ''invalid address'')),
      server_a\<lparr>State := StateError, Error := ''invalid address''\<rparr>,
      Some (errorString ''invalid address''),
      [EvClient (stage server_a) (Some (errorString ''invalid address'')),
       EvUpdate (server_a\<lparr>State := StateError, Error := ''invalid address''\<rparr>) None])) \<and>
   install (demo_installer (memStore [stage server_a] []) (\<lambda>s. Inr deadClient)) (deadline 2)
     (stage server_a) =
   Some (Return
     (demo_installer
        (memStore [server_a\<lparr>State := StateError, Error := ''context deadline exceeded''\<rparr>] [])
        (\<lambda>s. Inr deadClient),
      server_a\<lparr>State := StateError, Error := ''context deadline exceeded''\<rparr>,
      Some (errorString ''context deadline exceeded''),
      [EvClient (stage server_a) None,
       EvTimeAfter 0, EvContainerList (Some (errorString ''connection refused'')),
       EvTimeAfter Minute, EvContainerList (Some (errorString ''connection refused'')),
       EvCtxDone (errorString ''context deadline exceeded''),
       EvUpdate (server_a\<lparr>State := StateError, Error := ''context deadline exceeded''\<rparr>) None])) \<and>
   install (demo_installer (memStore [stage server_a] []) (\<lambda>s. Inr noImageClient)) background
     (stage server_a) =
   Some (Return
     (demo_installer (memStore [server_a\<lparr>State := StateError, Error := ''manifest unknown''\<rparr>] [])
        (\<lambda>s. Inr noImageClient),
      server_a\<lparr>State := StateError, Error := ''manifest unknown''\<rparr>,
      Some (errorString ''manifest unknown''),
      [EvClient (stage server_a) None, EvTimeAfter 0, EvContainerList None,
       EvImagePull ''drone/agent'' (Some (errorString ''manifest unknown'')),
       EvUpdate (server_a\<lparr>State := StateError, Error := ''manifest unknown''\<rparr>) None])) \<and>
   install (demo_installer (memStore [stage server_a] []) (\<lambda>s. Inr fullClient)) background
     (stage server_a) =
   Some (Return
     ((demo_installer
         (memStore [server_a\<lparr>State := StateError, Error := ''no space left on device''\<rparr>] [])
         (\<lambda>s. Inr fullClient))\<lparr>volumes := [docker_sock]\<rparr>,
      server_a\<lparr>State := StateError, Error := ''no space left on device''\<rparr>,
      Some (errorString ''no space left on device''),
      [EvClient (stage server_a) None, EvTimeAfter 0, EvContainerList None,
       EvImagePull ''drone/agent'' None, EvCopy 13 None, EvClose None,
       EvContainerCreate
         (agent_config (demo_installer (memStore [] []) (\<lambda>s. Inr fullClient))
            (stage server_a) {''/var/run/docker.sock''})
         \<lparr>Binds = [docker_sock], RestartPolicy = ''always''\<rparr> ''agent''
         (Some (errorString ''no space left on device'')),
       EvUpdate (server_a\<lparr>State := StateError, Error := ''no space left on device''\<rparr>) None])) \<and>
   install (demo_installer (memStore [stage server_a] []) (\<lambda>s. Inr noStartClient)) background
     (stage server_a) =
   Some (Return
     ((demo_installer
         (memStore [server_a\<lparr>State := StateError, Error := ''port is already allocated''\<rparr>] [])
         (\<lambda>s. Inr noStartClient))\<lparr>volumes := [docker_sock]\<rparr>,
      server_a\<lparr>State := StateError, Error := ''port is already allocated''\<rparr>,
      Some (errorString ''port is already allocated''),
      [EvClient (stage server_a) None, EvTimeAfter 0, EvContainerList None,
       EvImagePull ''drone/agent'' None, EvCopy 13 None, EvClose None,
       EvContainerCreate
         (agent_config (demo_installer (memStore [] []) (\<lambda>s. Inr noStartClient))
            (stage server_a) {''/var/run/docker.sock''})
         \<lparr>Binds = [docker_sock], RestartPolicy = ''always''\<rparr> ''agent'' None,
       EvContainerStart ''c0ffee'' (Some (errorString ''port is already allocated'')),
       EvUpdate (server_a\<lparr>State := StateError, Error := ''port is already allocated''\<rparr>) None]))"
proof (intro conjI)
  let ?A = "stage server_a"
  let ?e = "errorString ''invalid address''"
  let ?i = "demo_installer (memStore [?A] []) (\<lambda>s. Inl ?e)"
  let ?bad = "?A\<lparr>State := StateError, Error := ErrorText ?e\<rparr>"
  have upd: "Update (servers ?i) ?bad = (memStore [?bad] [], None)"
    by (simp add: Update_def demo_installer_def memStore_def stage_def server_a_def)
  have cl: "client ?i ?A = Inl ?e"
    by (simp add: demo_installer_def)
  from failed_step_ends_bootstrap[where inst'="?bad" and inst="?A" and e="?e" and i="?i"
      and store'="memStore [?bad] []" and uerr=None
      and ?i1.0="?i\<lparr>volumes := volumes ?i @ [docker_sock]\<rparr>" and ctx=background,
      OF refl upd refl, THEN conjunct1, THEN mp, OF cl]
  show "install ?i background ?A =
   Some (Return
     (demo_installer (memStore [server_a\<lparr>State := StateError, Error := ''invalid address''\<rparr>] [])
        (\<lambda>s. Inl ?e),
      server_a\<lparr>State := StateError, Error := ''invalid address''\<rparr>,
      Some ?e,
      [EvClient ?A (Some ?e),
       EvUpdate (server_a\<lparr>State := StateError, Error := ''invalid address''\<rparr>) None]))"
    by (simp add: demo_installer_def memStore_def stage_def server_a_def)
next
  let ?A = "stage server_a"
  let ?e = "errorString ''context deadline exceeded''"
  let ?i = "demo_installer (memStore [?A] []) (\<lambda>s. Inr deadClient)"
  let ?bad = "?A\<lparr>State := StateError, Error := ErrorText ?e\<rparr>"
  have upd: "Update (servers ?i) ?bad = (memStore [?bad] [], None)"
    by (simp add: Update_def demo_installer_def memStore_def stage_def server_a_def)
  have hyp: "client ?i ?A = Inr deadClient \<and>
      (\<forall>j<2. \<not> Done (deadline 2) j \<and> ContainerList deadClient j \<noteq> None) \<and>
      Done (deadline 2) 2 \<and> Err (deadline 2) = ?e"
    by (simp add: demo_installer_def deadline_def deadClient_def)
  from failed_step_ends_bootstrap[where inst'="?bad" and inst="?A" and e="?e" and i="?i"
      and store'="memStore [?bad] []" and uerr=None
      and ?i1.0="?i\<lparr>volumes := volumes ?i @ [docker_sock]\<rparr>" and ctx="deadline 2"
      and cl=deadClient and n=2,
      OF refl upd refl, THEN conjunct2, THEN conjunct1, THEN mp, OF hyp]
  show "install ?i (deadline 2) ?A =
   Some (Return
     (demo_installer
        (memStore [server_a\<lparr>State := StateError, Error := ''context deadline exceeded''\<rparr>] [])
        (\<lambda>s. Inr deadClient),
      server_a\<lparr>State := StateError, Error := ''context deadline exceeded''\<rparr>,
      Some ?e,
      [EvClient ?A None,
       EvTimeAfter 0, EvContainerList (Some (errorString ''connection refused'')),
       EvTimeAfter Minute, EvContainerList (Some (errorString ''connection refused'')),
       EvCtxDone ?e,
       EvUpdate (server_a\<lparr>State := StateError, Error := ''context deadline exceeded''\<rparr>) None]))"
    by (simp add: demo_installer_def memStore_def stage_def server_a_def probes_def
        deadClient_def upt_rec)
next
  let ?A = "stage server_a"
  let ?e = "errorString ''manifest unknown''"
  let ?i = "demo_installer (memStore [?A] []) (\<lambda>s. Inr noImageClient)"
  let ?bad = "?A\<lparr>State := StateError, Error := ErrorText ?e\<rparr>"
  have upd: "Update (servers ?i) ?bad = (memStore [?bad] [], None)"
    by (simp add: Update_def demo_installer_def memStore_def stage_def server_a_def)
  have hyp: "client ?i ?A = Inr noImageClient \<and>
      (\<forall>j<0. \<not> Done background j \<and> ContainerList noImageClient j \<noteq> None) \<and>
      \<not> Done background 0 \<and> ContainerList noImageClient 0 = None \<and>
      ImagePull noImageClient (imageRef ?i) =
        (\<lparr> body = [], read_error = None, close_error = None \<rparr>, Some ?e)"
    by (simp add: demo_installer_def background_def noImageClient_def)
  from failed_step_ends_bootstrap[where inst'="?bad" and inst="?A" and e="?e" and i="?i"
      and store'="memStore [?bad] []" and uerr=None
      and ?i1.0="?i\<lparr>volumes := volumes ?i @ [docker_sock]\<rparr>" and ctx=background
      and cl=noImageClient and n=0
      and rc="\<lparr> body = [], read_error = None, close_error = None \<rparr>",
      OF refl upd refl, THEN conjunct2, THEN conjunct2, THEN conjunct1, THEN mp, OF hyp]
  show "install ?i background ?A =
   Some (Return
     (demo_installer (memStore [server_a\<lparr>State := StateError, Error := ''manifest unknown''\<rparr>] [])
        (\<lambda>s. Inr noImageClient),
      server_a\<lparr>State := StateError, Error := ''manifest unknown''\<rparr>,
      Some ?e,
      [EvClient ?A None, EvTimeAfter 0, EvContainerList None,
       EvImagePull ''drone/agent'' (Some ?e),
       EvUpdate (server_a\<lparr>State := StateError, Error := ''manifest unknown''\<rparr>) None]))"
    by (simp add: demo_installer_def memStore_def stage_def server_a_def probes_def
        noImageClient_def)
next
  let ?A = "stage server_a"
  let ?e = "errorString ''no space left on device''"
  let ?i = "demo_installer (memStore [?A] []) (\<lambda>s. Inr fullClient)"
  let ?i1 = "?i\<lparr>volumes := volumes ?i @ [docker_sock]\<rparr>"
  let ?bad = "?A\<lparr>State := StateError, Error := ErrorText ?e\<rparr>"
  have upd: "Update (servers ?i) ?bad = (memStore [?bad] [], None)"
    by (simp add: Update_def demo_installer_def memStore_def stage_def server_a_def)
  have hyp: "client ?i ?A = Inr fullClient \<and>
      (\<forall>j<0. \<not> Done background j \<and> ContainerList fullClient j \<noteq> None) \<and>
      \<not> Done background 0 \<and> ContainerList fullClient 0 = None \<and>
      ImagePull fullClient (imageRef ?i) = (quietStream, None)"
    by (simp add: demo_installer_def background_def fullClient_def)
  from failed_step_ends_bootstrap[where inst'="?bad" and inst="?A" and e="?e" and i="?i"
      and store'="memStore [?bad] []" and uerr=None
      and ?i1.0="?i1" and ctx=background
      and cl=fullClient and n=0 and rc=quietStream and cid="[]",
      OF refl upd refl, THEN conjunct2, THEN conjunct2, THEN conjunct2, THEN conjunct1,
      THEN mp, OF hyp]
  obtain vols where tv: "toVol (volumes ?i1) = Return vols"
    and run: "ContainerCreate fullClient (agent_config ?i1 ?A vols) (agent_host_config ?i1)
                ''agent'' = ([], Some ?e) \<longrightarrow>
       install ?i background ?A =
         Some (Return (?i1\<lparr>servers := memStore [?bad] []\<rparr>, ?bad, Some ?e,
                       [EvClient ?A None] @ probes fullClient (Suc 0) @
                       [EvImagePull (imageRef ?i) None,
                        EvCopy (fst (Copy_Discard quietStream)) (snd (Copy_Discard quietStream)),
                        EvClose (Close quietStream),
                        EvContainerCreate (agent_config ?i1 ?A vols) (agent_host_config ?i1)
                          ''agent'' (Some ?e),
                        EvUpdate ?bad None]))"
    by blast
  from tv have vols: "vols = {''/var/run/docker.sock''}"
    by (simp add: demo_installer_def toVol_def split_docker_sock)
  have "ContainerCreate fullClient (agent_config ?i1 ?A vols) (agent_host_config ?i1) ''agent'' =
      ([], Some ?e)"
    by (simp add: fullClient_def)
  with run show "install ?i background ?A =
   Some (Return
     ((demo_installer
         (memStore [server_a\<lparr>State := StateError, Error := ''no space left on device''\<rparr>] [])
         (\<lambda>s. Inr fullClient))\<lparr>volumes := [docker_sock]\<rparr>,
      server_a\<lparr>State := StateError, Error := ''no space left on device''\<rparr>,
      Some ?e,
      [EvClient ?A None, EvTimeAfter 0, EvContainerList None,
       EvImagePull ''drone/agent'' None, EvCopy 13 None, EvClose None,
       EvContainerCreate
         (agent_config (demo_installer (memStore [] []) (\<lambda>s. Inr fullClient))
            ?A {''/var/run/docker.sock''})
         \<lparr>Binds = [docker_sock], RestartPolicy = ''always''\<rparr> ''agent'' (Some ?e),
       EvUpdate (server_a\<lparr>State := StateError, Error := ''no space left on device''\<rparr>) None]))"
    unfolding vols
    by (simp add: demo_installer_def memStore_def stage_def server_a_def probes_def
        fullClient_def quietStream_def Copy_Discard_def Close_def agent_host_config_def
        agent_config_def)
next
  let ?A = "stage server_a"
  let ?e = "errorString ''port is already allocated''"
  let ?i = "demo_installer (memStore [?A] []) (\<lambda>s. Inr noStartClient)"
  let ?i1 = "?i\<lparr>volumes := volumes ?i @ [docker_sock]\<rparr>"
  let ?bad = "?A\<lparr>State := StateError, Error := ErrorText ?e\<rparr>"
  have upd: "Update (servers ?i) ?bad = (memStore [?bad] [], None)"
    by (simp add: Update_def demo_installer_def memStore_def stage_def server_a_def)
  have hyp: "client ?i ?A = Inr noStartClient \<and>
      (\<forall>j<0. \<not> Done background j \<and> ContainerList noStartClient j \<noteq> None) \<and>
      \<not> Done background 0 \<and> ContainerList noStartClient 0 = None \<and>
      ImagePull noStartClient (imageRef ?i) = (quietStream, None)"
    by (simp add: demo_installer_def background_def noStartClient_def)
  from failed_step_ends_bootstrap[where inst'="?bad" and inst="?A" and e="?e" and i="?i"
      and store'="memStore [?bad] []" and uerr=None
      and ?i1.0="?i1" and ctx=background
      and cl=noStartClient and n=0 and rc=quietStream and cid="''c0ffee''",
      OF refl upd refl, THEN conjunct2, THEN conjunct2, THEN conjunct2, THEN conjunct1,
      THEN mp, OF hyp]
  obtain vols where tv: "toVol (volumes ?i1) = Return vols"
    and run: "ContainerCreate noStartClient (agent_config ?i1 ?A vols) (agent_host_config ?i1)
                ''agent'' = (''c0ffee'', None) \<and>
              ContainerStart noStartClient ''c0ffee'' = Some ?e \<longrightarrow>
       install ?i background ?A =
         Some (Return (?i1\<lparr>servers := memStore [?bad] []\<rparr>, ?bad, Some ?e,
                       [EvClient ?A None] @ probes noStartClient (Suc 0) @
                       [EvImagePull (imageRef ?i) None,
                        EvCopy (fst (Copy_Discard quietStream)) (snd (Copy_Discard quietStream)),
                        EvClose (Close quietStream),
                        EvContainerCreate (agent_config ?i1 ?A vols) (agent_host_config ?i1)
                          ''agent'' None,
                        EvContainerStart ''c0ffee'' (Some ?e),
                        EvUpdate ?bad None]))"
    by blast
  from tv have vols: "vols = {''/var/run/docker.sock''}"
    by (simp add: demo_installer_def toVol_def split_docker_sock)
  have "ContainerCreate noStartClient (agent_config ?i1 ?A vols) (agent_host_config ?i1)
          ''agent'' = (''c0ffee'', None) \<and>
        ContainerStart noStartClient ''c0ffee'' = Some ?e"
    by (simp add: noStartClient_def)
  with run show "install ?i background ?A =
   Some (Return
     ((demo_installer
         (memStore [server_a\<lparr>State := StateError, Error := ''port is already allocated''\<rparr>] [])
         (\<lambda>s. Inr noStartClient))\<lparr>volumes := [docker_sock]\<rparr>,
      server_a\<lparr>State := StateError, Error := ''port is already allocated''\<rparr>,
      Some ?e,
      [EvClient ?A None, EvTimeAfter 0, EvContainerList None,
       EvImagePull ''drone/agent'' None, EvCopy 13 None, EvClose None,
       EvContainerCreate
         (agent_config (demo_installer (memStore [] []) (\<lambda>s. Inr noStartClient))
            ?A {''/var/run/docker.sock''})
         \<lparr>Binds = [docker_sock], RestartPolicy = ''always''\<rparr> ''agent'' None,
       EvContainerStart ''c0ffee'' (Some ?e),
       EvUpdate (server_a\<lparr>State := StateError, Error := ''port is already allocated''\<rparr>) None]))"
    unfolding vols
    by (simp add: demo_installer_def memStore_def stage_def server_a_def probes_def
        noStartClient_def quietStream_def Copy_Discard_def Close_def agent_host_config_def
        agent_config_def)
qed

text \<open>
  Claim C6. When the client is constructed, some attempt of the poller succeeds before the
  context is done, \<^verbatim>\<open>ImagePull\<close> returns no error, and the calls of \<^verbatim>\<open>ContainerCreate\<close> and
  \<^verbatim>\<open>ContainerStart\<close> that \<^verbatim>\<open>install\<close> makes return no error, then \<^verbatim>\<open>install\<close> returns, it has
  handed to the store the record \<open>inst'\<close>, which is the record it was given with the state
  set to \<^verbatim>\<open>running\<close> and every other field, the error field among them, as it was, and that
  update is the last thing it did and the only write. The installer it leaves holds the
  store as that update left it, and what \<^verbatim>\<open>install\<close> returns is the store's answer.
\<close>

theorem successful_bootstrap_marks_running:
  assumes "inst' = inst\<lparr>State := StateRunning\<rparr>"
    and "Update (servers i) inst' = (store', uerr)"
    and "i1 = i\<lparr>volumes := volumes i @ [docker_sock]\<rparr>"
    and "client i inst = Inr cl"
    and "\<forall>j<n. \<not> Done ctx j \<and> ContainerList cl j \<noteq> None"
    and "\<not> Done ctx n" and "ContainerList cl n = None"
    and "ImagePull cl (imageRef i) = (rc, None)"
    and "\<forall>vols. toVol (volumes i1) = Return vols \<longrightarrow>
           ContainerCreate cl (agent_config i1 inst vols) (agent_host_config i1) ''agent'' =
             (cid, None)"
    and "ContainerStart cl cid = None"
  shows
  "\<exists>vols evs.
     toVol (volumes i1) = Return vols \<and>
     evs = [EvClient inst None] @ probes cl (Suc n) @
           [EvImagePull (imageRef i) None,
            EvCopy (fst (Copy_Discard rc)) (snd (Copy_Discard rc)),
            EvClose (Close rc),
            EvContainerCreate (agent_config i1 inst vols) (agent_host_config i1) ''agent'' None,
            EvContainerStart cid None,
            EvUpdate inst' uerr] \<and>
     install i ctx inst = Some (Return (i1\<lparr>servers := store'\<rparr>, inst', uerr, evs)) \<and>
     written evs = [inst'] \<and>
     State inst' = StateRunning \<and> Error inst' = Error inst"
proof -
  note upd = assms(2)[unfolded assms(1)]
  obtain vols where tv: "toVol (volumes i @ [docker_sock]) = Return vols"
    using toVol_returns by blast
  from assms(9) tv have created:
    "ContainerCreate cl (agent_config (i\<lparr>volumes := volumes i @ [docker_sock]\<rparr>) inst vols)
       (agent_host_config (i\<lparr>volumes := volumes i @ [docker_sock]\<rparr>)) ''agent'' = (cid, None)"
    unfolding assms(3) by simp
  let ?evs = "[EvClient inst None] @ probes cl (Suc n) @
           [EvImagePull (imageRef i) None,
            EvCopy (fst (Copy_Discard rc)) (snd (Copy_Discard rc)),
            EvClose (Close rc),
            EvContainerCreate
              (agent_config (i\<lparr>volumes := volumes i @ [docker_sock]\<rparr>) inst vols)
              (agent_host_config (i\<lparr>volumes := volumes i @ [docker_sock]\<rparr>)) ''agent'' None,
            EvContainerStart cid None,
            EvUpdate (inst\<lparr>State := StateRunning\<rparr>) uerr]"
  from install_provisions[OF assms(4,5,6,7) provision_runs[OF assms(8) tv created assms(10) upd]]
    tv
  show ?thesis
    unfolding assms(1) assms(3)
    by (intro exI[of _ vols] exI[of _ ?evs]) (simp add: written_append written_probes)
qed

theorem successful_bootstrap_marks_running_witness:
  "install (demo_installer (memStore [stage server_a] []) (\<lambda>s. Inr (slowClient 3))) background
     (stage server_a) =
   Some (Return
     ((demo_installer (memStore [server_a\<lparr>State := StateRunning\<rparr>] []) (\<lambda>s. Inr (slowClient 3)))
        \<lparr>volumes := [docker_sock]\<rparr>,
      server_a\<lparr>State := StateRunning\<rparr>,
      None,
      [EvClient (stage server_a) None,
       EvTimeAfter 0, EvContainerList (Some (errorString ''connection refused'')),
       EvTimeAfter Minute, EvContainerList (Some (errorString ''connection refused'')),
       EvTimeAfter Minute, EvContainerList (Some (errorString ''connection refused'')),
       EvTimeAfter Minute, EvContainerList None,
       EvImagePull ''drone/agent'' None, EvCopy 13 None, EvClose None,
       EvContainerCreate
         (agent_config (demo_installer (memStore [] []) (\<lambda>s. Inr (slowClient 3)))
            (stage server_a) {''/var/run/docker.sock''})
         \<lparr>Binds = [docker_sock], RestartPolicy = ''always''\<rparr> ''agent'' None,
       EvContainerStart ''c0ffee'' None,
       EvUpdate (server_a\<lparr>State := StateRunning\<rparr>) None])) \<and>
   State (server_a\<lparr>State := StateRunning\<rparr>) = StateRunning \<and>
   Error (server_a\<lparr>State := StateRunning\<rparr>) = []"
proof (intro conjI)
  let ?A = "stage server_a"
  let ?i = "demo_installer (memStore [?A] []) (\<lambda>s. Inr (slowClient 3))"
  let ?i1 = "?i\<lparr>volumes := volumes ?i @ [docker_sock]\<rparr>"
  let ?run = "?A\<lparr>State := StateRunning\<rparr>"
  have upd: "Update (servers ?i) ?run = (memStore [?run] [], None)"
    by (simp add: Update_def demo_installer_def memStore_def stage_def server_a_def)
  have cl: "client ?i ?A = Inr (slowClient 3)"
    by (simp add: demo_installer_def)
  have retries: "\<forall>j<3. \<not> Done background j \<and> ContainerList (slowClient 3) j \<noteq> None"
    by (simp add: background_def slowClient_def)
  have nd: "\<not> Done background 3" by (simp add: background_def)
  have ok: "ContainerList (slowClient 3) 3 = None" by (simp add: slowClient_def)
  have pull: "ImagePull (slowClient 3) (imageRef ?i) = (quietStream, None)"
    by (simp add: slowClient_def)
  have create: "\<forall>vols. toVol (volumes ?i1) = Return vols \<longrightarrow>
      ContainerCreate (slowClient 3) (agent_config ?i1 ?A vols) (agent_host_config ?i1) ''agent'' =
        (''c0ffee'', None)"
    by (simp add: slowClient_def)
  have start: "ContainerStart (slowClient 3) ''c0ffee'' = None"
    by (simp add: slowClient_def)
  from successful_bootstrap_marks_running[where inst'="?run" and inst="?A" and i="?i"
      and store'="memStore [?run] []" and uerr=None and ?i1.0="?i1" and ctx=background
      and cl="slowClient 3" and n=3 and rc=quietStream and cid="''c0ffee''",
      OF refl upd refl cl retries nd ok pull create start]
  obtain vols evs where tv: "toVol (volumes ?i1) = Return vols"
    and evs: "evs = [EvClient ?A None] @ probes (slowClient 3) (Suc 3) @
                     [EvImagePull (imageRef ?i) None,
                      EvCopy (fst (Copy_Discard quietStream)) (snd (Copy_Discard quietStream)),
                      EvClose (Close quietStream),
                      EvContainerCreate (agent_config ?i1 ?A vols) (agent_host_config ?i1)
                        ''agent'' None,
                      EvContainerStart ''c0ffee'' None,
                      EvUpdate ?run None]"
    and run: "install ?i background ?A =
       Some (Return (?i1\<lparr>servers := memStore [?run] []\<rparr>, ?run, None, evs))"
    by blast
  from tv have vols: "vols = {''/var/run/docker.sock''}"
    by (simp add: demo_installer_def toVol_def split_docker_sock)
  from run[unfolded evs] show "install ?i background ?A =
   Some (Return
     ((demo_installer (memStore [server_a\<lparr>State := StateRunning\<rparr>] []) (\<lambda>s. Inr (slowClient 3)))
        \<lparr>volumes := [docker_sock]\<rparr>,
      server_a\<lparr>State := StateRunning\<rparr>,
      None,
      [EvClient ?A None,
       EvTimeAfter 0, EvContainerList (Some (errorString ''connection refused'')),
       EvTimeAfter Minute, EvContainerList (Some (errorString ''connection refused'')),
       EvTimeAfter Minute, EvContainerList (Some (errorString ''connection refused'')),
       EvTimeAfter Minute, EvContainerList None,
       EvImagePull ''drone/agent'' None, EvCopy 13 None, EvClose None,
       EvContainerCreate
         (agent_config (demo_installer (memStore [] []) (\<lambda>s. Inr (slowClient 3)))
            ?A {''/var/run/docker.sock''})
         \<lparr>Binds = [docker_sock], RestartPolicy = ''always''\<rparr> ''agent'' None,
       EvContainerStart ''c0ffee'' None,
       EvUpdate (server_a\<lparr>State := StateRunning\<rparr>) None]))"
    unfolding vols
    by (simp add: demo_installer_def memStore_def stage_def server_a_def probes_def
        slowClient_def quietStream_def Copy_Discard_def Close_def agent_host_config_def
        agent_config_def upt_rec)
  show "State (server_a\<lparr>State := StateRunning\<rparr>) = StateRunning" by simp
  show "Error (server_a\<lparr>State := StateRunning\<rparr>) = []" by (simp add: server_a_def)
qed

section \<open>Runs of the goroutines\<close>











text \<open>The moves of the calling goroutine alone are \<^verbatim>\<open>Install\<close>.\<close>

lemma Main_moves_are_Install_loop:
  "\<exists>k i' ret launched evs.
     Install_loop i listed = (i', ret, launched, evs) \<and>
     sched_run ctx (replicate (Suc k) Main)
       \<lparr> shared = i, todo = listed, returned = None, ready = R, trace = T \<rparr> =
     Some \<lparr> shared = i', todo = drop k listed, returned = Some ret,
            ready = R @ launched, trace = T @ evs \<rparr>"
proof (induction listed arbitrary: i R T)
  case Nil
  show ?case by (intro exI[of _ 0]) simp
next
  case (Cons server rest)
  obtain i1 e where body: "Install_body i server = (i1, e)"
    by (cases "Install_body i server")
  show ?case
  proof (cases e)
    case (Some err)
    with body show ?thesis by (intro exI[of _ 0]) simp
  next
    case None
    from Cons.IH[of i1 "R @ [stage server]"
        "T @ [EvUpdate (stage server) None, EvGo (stage server)]"]
    obtain k i' ret launched evs where
      loop: "Install_loop i1 rest = (i', ret, launched, evs)"
      and run: "sched_run ctx (replicate (Suc k) Main)
         \<lparr> shared = i1, todo = rest, returned = None, ready = R @ [stage server],
           trace = T @ [EvUpdate (stage server) None, EvGo (stage server)] \<rparr> =
         Some \<lparr> shared = i', todo = drop k rest, returned = Some ret,
                ready = (R @ [stage server]) @ launched,
                trace = (T @ [EvUpdate (stage server) None, EvGo (stage server)]) @ evs \<rparr>"
      by blast
    from body None loop run show ?thesis
      by (intro exI[of _ "Suc k"]) simp
  qed
qed

lemma Main_moves_are_Install:
  assumes "ListState (servers i) StateCreated = (listed, None)"
  shows "\<exists>k i' ret launched evs.
     Install i ctx = (i', ret, launched, evs) \<and>
     sched_run ctx (replicate (Suc k) Main) (sched_start i) =
     Some \<lparr> shared = i', todo = drop k listed, returned = Some ret,
            ready = launched, trace = evs \<rparr>"
  using Main_moves_are_Install_loop[of i listed ctx "[]" "[]"] assms
  by (simp add: Install_def sched_start_def)

section \<open>Claims about \<^verbatim>\<open>Install\<close>\<close>

lemma Install_body_wg:
  "Install_body i server = (i', None) \<Longrightarrow> wg i' = Suc (wg i)"
  by (auto simp: Install_body_def split: prod.splits if_splits)

lemma Install_body_wg_failed:
  "Install_body i server = (i', Some err) \<Longrightarrow> wg i' = wg i"
  by (auto simp: Install_body_def split: prod.splits if_splits)

text \<open>
  The loop of \<^verbatim>\<open>Install\<close> handles the first \<open>k\<close> listed servers, each with a successful update
  followed at once by the launch of its goroutine, and stops either at the end of the list
  or at the first update that fails.
\<close>

lemma Install_loop_shape:
  "\<exists>i' ret k. k \<le> length listed \<and>
     Install_loop i listed =
       (i', ret, map stage (take k listed),
        concat (map (\<lambda>s. [EvUpdate (stage s) None, EvGo (stage s)]) (take k listed)) @
        (case ret of None \<Rightarrow> [] | Some e \<Rightarrow> [EvUpdate (stage (listed ! k)) (Some e)])) \<and>
     (ret = None \<longleftrightarrow> k = length listed) \<and> wg i' = wg i + k"
proof (induction listed arbitrary: i)
  case Nil
  then show ?case by simp
next
  case (Cons server rest)
  obtain i1 r where body: "Install_body i server = (i1, r)"
    by (cases "Install_body i server")
  show ?case
  proof (cases r)
    case (Some err)
    with body Install_body_wg_failed[of i server i1 err] show ?thesis
      by (intro exI[of _ i1] exI[of _ "Some err"] exI[of _ 0]) simp
  next
    case None
    from Cons.IH[of i1] obtain i' ret k where k: "k \<le> length rest"
      and loop: "Install_loop i1 rest =
       (i', ret, map stage (take k rest),
        concat (map (\<lambda>s. [EvUpdate (stage s) None, EvGo (stage s)]) (take k rest)) @
        (case ret of None \<Rightarrow> [] | Some e \<Rightarrow> [EvUpdate (stage (rest ! k)) (Some e)]))"
      and ret: "ret = None \<longleftrightarrow> k = length rest" and wg: "wg i' = wg i1 + k"
      by blast
    from body None have "wg i1 = Suc (wg i)" by (simp add: Install_body_wg)
    with body None k loop ret wg show ?thesis
      by (intro exI[of _ i'] exI[of _ ret] exI[of _ "Suc k"]) (simp split: option.splits)
  qed
qed

lemma Install_shape:
  assumes "ListState (servers i) StateCreated = (listed, None)"
  shows "\<exists>i' ret k. k \<le> length listed \<and>
     Install i ctx =
       (i', ret, map stage (take k listed),
        concat (map (\<lambda>s. [EvUpdate (stage s) None, EvGo (stage s)]) (take k listed)) @
        (case ret of None \<Rightarrow> [] | Some e \<Rightarrow> [EvUpdate (stage (listed ! k)) (Some e)])) \<and>
     (ret = None \<longleftrightarrow> k = length listed) \<and> wg i' = wg i + k"
  using Install_loop_shape[of listed i] assms by (simp add: Install_def)


lemma Install_second_update_fails:
  "Install (demo_installer (memStore [server_a, server_b] [''b'']) (\<lambda>s. Inr (slowClient 0)))
     background =
   ((demo_installer (memStore [stage server_a, server_b] [''b'']) (\<lambda>s. Inr (slowClient 0)))
      \<lparr>wg := 1\<rparr>,
    Some (errorString ''store: update failed''),
    [stage server_a],
    [EvUpdate (stage server_a) None, EvGo (stage server_a),
     EvUpdate (stage server_b) (Some (errorString ''store: update failed''))])"
  by (simp add: run_defs)

lemma worker_runs_before_next_staging:
  "\<exists>sys.
     sched_run background [Main, Worker 0, Main, Main]
       (sched_start (demo_installer (memStore [server_a, server_b] []) (\<lambda>s. Inr (slowClient 0))))
       = Some sys \<and>
     returned sys = Some None \<and>
     trace sys =
       [EvUpdate (stage server_a) None, EvGo (stage server_a),
        EvClient (stage server_a) None, EvTimeAfter 0, EvContainerList None,
        EvImagePull ''drone/agent'' None, EvCopy 13 None, EvClose None,
        EvContainerCreate
          (agent_config (demo_installer (memStore [] []) (\<lambda>s. Inr (slowClient 0)))
             (stage server_a) {''/var/run/docker.sock''})
          \<lparr>Binds = [docker_sock], RestartPolicy = ''always''\<rparr> ''agent'' None,
        EvContainerStart ''c0ffee'' None,
        EvUpdate (server_a\<lparr>State := StateRunning\<rparr>) None,
        EvUpdate (stage server_b) None, EvGo (stage server_b)]"
  by (simp add: run_defs sched_start_def agent_host_config_def agent_config_def)








section \<open>Claims about the lifecycle and the configuration\<close>

lemma written_launches:
  "written (concat (map (\<lambda>s. [EvUpdate (stage s) None, EvGo (stage s)]) xs)) = map stage xs"
  by (induction xs) auto

text \<open>\<^verbatim>\<open>Install\<close> writes the listed records in order, each set to \<^verbatim>\<open>staging\<close>, each once.\<close>

lemma Install_stages_listed:
  assumes "ListState (servers i) StateCreated = (listed, None)"
    and "Install i ctx = (i', ret, launched, evs)"
  shows "\<exists>k m. k \<le> m \<and> m \<le> length listed \<and>
           launched = map stage (take k listed) \<and> written evs = map stage (take m listed)"
proof -
  from Install_shape[of i listed ctx] assms obtain k where
    k: "k \<le> length listed"
    and launched: "launched = map stage (take k listed)"
    and evs: "evs = concat (map (\<lambda>s. [EvUpdate (stage s) None, EvGo (stage s)]) (take k listed)) @
        (case ret of None \<Rightarrow> [] | Some e \<Rightarrow> [EvUpdate (stage (listed ! k)) (Some e)])"
    and full: "ret = None \<longleftrightarrow> k = length listed"
    by auto
  show ?thesis
  proof (cases ret)
    case None
    with evs have "written evs = map stage (take k listed)"
      by (simp add: written_append written_launches)
    with launched k show ?thesis
      by (intro exI[of _ k]) simp
  next
    case (Some e)
    with full k have lt: "k < length listed" by simp
    from Some evs have "written evs = map stage (take k listed) @ [stage (listed ! k)]"
      by (simp add: written_append written_launches)
    also have "\<dots> = map stage (take (Suc k) listed)"
      using lt by (simp add: take_Suc_conv_app_nth)
    finally have "written evs = map stage (take (Suc k) listed)" .
    with launched lt show ?thesis
      by (intro exI[of _ k] exI[of _ "Suc k"]) simp
  qed
qed

text \<open>The states written, identifier by identifier, along a run.\<close>

lemma states_written_append:
  "states_written sid (xs @ ys) = states_written sid xs @ states_written sid ys"
  by (simp add: states_written_def written_append)

lemma distinct_ID_fresh:
  assumes "distinct (map ID listed)" and "j < length listed"
  shows "ID (listed ! j) \<notin> ID ` set (take j listed)"
proof
  assume "ID (listed ! j) \<in> ID ` set (take j listed)"
  then obtain s where s: "s \<in> set (take j listed)" and eq: "ID (listed ! j) = ID s" by auto
  from s obtain k where k: "k < length (take j listed)" and sk: "take j listed ! k = s"
    by (auto simp: in_set_conv_nth)
  from k assms(2) have kj: "k < j" by simp
  with sk have "s = listed ! k" by simp
  with eq have same: "ID (listed ! j) = ID (listed ! k)" by simp
  from assms(1) have "\<forall>a<length listed. \<forall>b<length listed. a \<noteq> b \<longrightarrow> ID (listed ! a) \<noteq> ID (listed ! b)"
    by (simp add: distinct_conv_nth)
  with assms(2) kj have "ID (listed ! j) \<noteq> ID (listed ! k)" by auto
  with same show False by simp
qed

lemma distinct_without:
  assumes "distinct (map f xs)" and "n < length xs"
  shows "distinct (map f (take n xs @ drop (Suc n) xs)) \<and>
         (\<forall>s\<in>set (take n xs @ drop (Suc n) xs). f s \<noteq> f (xs ! n))"
proof -
  from assms(2) have "xs = take n xs @ xs ! n # drop (Suc n) xs" by (rule id_take_nth_drop)
  then have "map f xs = map f (take n xs) @ f (xs ! n) # map f (drop (Suc n) xs)"
    by (metis list.simps(9) map_append)
  with assms(1) have "distinct (map f (take n xs) @ f (xs ! n) # map f (drop (Suc n) xs))"
    by simp
  then have rest: "distinct (map f (take n xs @ drop (Suc n) xs))"
    and notin: "f (xs ! n) \<notin> f ` set (take n xs)" "f (xs ! n) \<notin> f ` set (drop (Suc n) xs)"
    by auto
  have "f s \<noteq> f (xs ! n)" if "s \<in> set (take n xs @ drop (Suc n) xs)" for s
  proof
    assume "f s = f (xs ! n)"
    moreover from that have "f s \<in> f ` set (take n xs) \<or> f s \<in> f ` set (drop (Suc n) xs)"
      by auto
    ultimately show False using notin by simp
  qed
  with rest show ?thesis by blast
qed

lemma lifecycle_start:
  assumes "ListState (servers i) StateCreated = (listed, lerr)"
  shows "lifecycle_inv listed (sched_start i)"
proof (cases lerr)
  case None
  with assms show ?thesis
    unfolding lifecycle_inv_def sched_start_def
    by (auto simp: states_written_def intro!: exI[of _ 0])
next
  case (Some err)
  with assms show ?thesis
    unfolding lifecycle_inv_def sched_start_def
    by (auto simp: states_written_def intro!: exI[of _ "length listed"])
qed

lemma lifecycle_step:
  assumes d: "distinct (map ID listed)"
    and inv: "lifecycle_inv listed sys"
    and st: "sched_step ctx m sys = Some sys'"
  shows "lifecycle_inv listed sys'"
proof -
  from inv obtain j where j: "j \<le> length listed"
    and todo: "todo sys = drop j listed"
    and rd: "set (ready sys) \<subseteq> stage ` set (take j listed)"
    and fresh: "\<And>sid. sid \<notin> ID ` set (take j listed) \<Longrightarrow>
           states_written sid (trace sys) = [] \<or>
           returned sys \<noteq> None \<and> states_written sid (trace sys) = [StateStaging]"
    and dist: "distinct (map ID (ready sys))"
    and own: "\<And>s. s \<in> set (ready sys) \<Longrightarrow> states_written (ID s) (trace sys) = [StateStaging]"
    and all: "\<And>sid. states_written sid (trace sys) \<in>
        {[], [StateStaging], [StateStaging, StateRunning], [StateStaging, StateError]}"
    unfolding lifecycle_inv_def by blast
  have rid: "ID s \<in> ID ` set (take j listed)" if "s \<in> set (ready sys)" for s
  proof -
    from that rd obtain s0 where "s0 \<in> set (take j listed)" and "s = stage s0" by auto
    then show ?thesis by (auto simp: stage_def)
  qed
  show ?thesis
  proof (cases m)
    case Main
    from st Main have nr: "returned sys = None" by (auto split: if_splits)
    show ?thesis
    proof (cases "todo sys")
      case Nil
      with st Main nr have sys': "sys' = sys\<lparr>returned := Some None\<rparr>" by auto
      have "\<exists>j\<le>length listed.
          todo sys' = drop j listed \<and>
          set (ready sys') \<subseteq> stage ` set (take j listed) \<and>
          (\<forall>sid. sid \<notin> ID ` set (take j listed) \<longrightarrow>
             states_written sid (trace sys') = [] \<or>
             returned sys' \<noteq> None \<and> states_written sid (trace sys') = [StateStaging])"
        using j todo rd fresh unfolding sys' by (intro exI[of _ j]) auto
      with dist own all show ?thesis
        unfolding lifecycle_inv_def sys' by simp
    next
      case (Cons server rest)
      with todo have dl: "drop j listed = server # rest" by simp
      have jl: "j < length listed"
      proof (rule ccontr)
        assume "\<not> j < length listed"
        then have "drop j listed = []" by simp
        with dl show False by simp
      qed
      from Cons_nth_drop_Suc[OF jl] Cons todo
      have server: "server = listed ! j" and rest: "rest = drop (Suc j) listed" by simp_all
      from distinct_ID_fresh[OF d jl] server
      have new: "ID server \<notin> ID ` set (take j listed)" by simp
      from fresh[OF new] nr have none: "states_written (ID server) (trace sys) = []" by simp
      have tk: "take (Suc j) listed = take j listed @ [server]"
        using jl server by (simp add: take_Suc_conv_app_nth)
      have other: "ID s \<noteq> ID server" if "s \<in> set (ready sys)" for s
        using rid[OF that] new by auto
      obtain i1 e where body: "Install_body (shared sys) server = (i1, e)"
        by (cases "Install_body (shared sys) server")
      show ?thesis
      proof (cases e)
        case None
        with st Main nr Cons body have
          tr: "trace sys' = trace sys @ [EvUpdate (stage server) None, EvGo (stage server)]"
          and rdy: "ready sys' = ready sys @ [stage server]"
          and td: "todo sys' = rest"
          and rt: "returned sys' = None"
          by auto
        have sw: "states_written sid (trace sys') =
            states_written sid (trace sys) @ (if ID server = sid then [StateStaging] else [])"
          for sid
          unfolding tr states_written_append by (simp add: states_written_def stage_def)
        have a: "\<exists>j\<le>length listed.
            todo sys' = drop j listed \<and>
            set (ready sys') \<subseteq> stage ` set (take j listed) \<and>
            (\<forall>sid. sid \<notin> ID ` set (take j listed) \<longrightarrow>
               states_written sid (trace sys') = [] \<or>
               returned sys' \<noteq> None \<and> states_written sid (trace sys') = [StateStaging])"
        proof (intro exI[of _ "Suc j"] conjI allI impI)
          show "Suc j \<le> length listed" using jl by simp
          show "todo sys' = drop (Suc j) listed" using td rest by simp
          show "set (ready sys') \<subseteq> stage ` set (take (Suc j) listed)"
            unfolding rdy tk using rd by auto
        next
          fix sid assume "sid \<notin> ID ` set (take (Suc j) listed)"
          then have ns: "sid \<noteq> ID server" and old: "sid \<notin> ID ` set (take j listed)"
            unfolding tk by auto
          from fresh[OF old] nr have "states_written sid (trace sys) = []" by simp
          with ns show "states_written sid (trace sys') = [] \<or>
               returned sys' \<noteq> None \<and> states_written sid (trace sys') = [StateStaging]"
            unfolding sw by simp
        qed
        have "ID server \<notin> ID ` set (ready sys)"
        proof
          assume "ID server \<in> ID ` set (ready sys)"
          then obtain s where "s \<in> set (ready sys)" and "ID server = ID s" by auto
          with other[of s] show False by simp
        qed
        with dist have b: "distinct (map ID (ready sys'))"
          unfolding rdy by (simp add: stage_def)
        have c: "\<forall>s\<in>set (ready sys'). states_written (ID s) (trace sys') = [StateStaging]"
        proof
          fix s assume "s \<in> set (ready sys')"
          then consider "s \<in> set (ready sys)" | "s = stage server" unfolding rdy by auto
          then show "states_written (ID s) (trace sys') = [StateStaging]"
          proof cases
            case 1
            from own[OF 1] other[OF 1] show ?thesis unfolding sw by simp
          next
            case 2
            with none show ?thesis unfolding sw by (simp add: stage_def)
          qed
        qed
        have f: "\<forall>sid. states_written sid (trace sys') \<in>
            {[], [StateStaging], [StateStaging, StateRunning], [StateStaging, StateError]}"
        proof
          fix sid
          show "states_written sid (trace sys') \<in>
            {[], [StateStaging], [StateStaging, StateRunning], [StateStaging, StateError]}"
          proof (cases "ID server = sid")
            case True
            with none show ?thesis unfolding sw by simp
          next
            case False
            with all[of sid] show ?thesis unfolding sw by simp
          qed
        qed
        from a b c f show ?thesis unfolding lifecycle_inv_def by blast
      next
        case (Some err)
        with st Main nr Cons body have
          tr: "trace sys' = trace sys @ [EvUpdate (stage server) (Some err)]"
          and rdy: "ready sys' = ready sys"
          and td: "todo sys' = todo sys"
          and rt: "returned sys' = Some (Some err)"
          by auto
        have sw: "states_written sid (trace sys') =
            states_written sid (trace sys) @ (if ID server = sid then [StateStaging] else [])"
          for sid
          unfolding tr states_written_append by (simp add: states_written_def stage_def)
        have a: "\<exists>j\<le>length listed.
            todo sys' = drop j listed \<and>
            set (ready sys') \<subseteq> stage ` set (take j listed) \<and>
            (\<forall>sid. sid \<notin> ID ` set (take j listed) \<longrightarrow>
               states_written sid (trace sys') = [] \<or>
               returned sys' \<noteq> None \<and> states_written sid (trace sys') = [StateStaging])"
        proof (intro exI[of _ j] conjI allI impI)
          show "j \<le> length listed" by (rule j)
          show "todo sys' = drop j listed" using td todo by simp
          show "set (ready sys') \<subseteq> stage ` set (take j listed)" unfolding rdy by (rule rd)
        next
          fix sid assume old: "sid \<notin> ID ` set (take j listed)"
          from fresh[OF old] nr have "states_written sid (trace sys) = []" by simp
          then show "states_written sid (trace sys') = [] \<or>
               returned sys' \<noteq> None \<and> states_written sid (trace sys') = [StateStaging]"
            unfolding sw rt by simp
        qed
        have b: "distinct (map ID (ready sys'))" unfolding rdy by (rule dist)
        have c: "\<forall>s\<in>set (ready sys'). states_written (ID s) (trace sys') = [StateStaging]"
        proof
          fix s assume "s \<in> set (ready sys')"
          then have s: "s \<in> set (ready sys)" unfolding rdy .
          from own[OF s] other[OF s] show "states_written (ID s) (trace sys') = [StateStaging]"
            unfolding sw by simp
        qed
        have f: "\<forall>sid. states_written sid (trace sys') \<in>
            {[], [StateStaging], [StateStaging, StateRunning], [StateStaging, StateError]}"
        proof
          fix sid
          show "states_written sid (trace sys') \<in>
            {[], [StateStaging], [StateStaging, StateRunning], [StateStaging, StateError]}"
          proof (cases "ID server = sid")
            case True
            with none show ?thesis unfolding sw by simp
          next
            case False
            with all[of sid] show ?thesis unfolding sw by simp
          qed
        qed
        from a b c f show ?thesis unfolding lifecycle_inv_def by blast
      qed
    qed
  next
    case (Worker n)
    from st Worker have n: "n < length (ready sys)" by (auto split: if_splits)
    with st Worker obtain i' server' ret evs where
      run: "install (shared sys) ctx (ready sys ! n) = Some (Return (i', server', ret, evs))"
      and tr: "trace sys' = trace sys @ evs"
      and rdy: "ready sys' = take n (ready sys) @ drop (Suc n) (ready sys)"
      and td: "todo sys' = todo sys"
      and rt: "returned sys' = returned sys"
      by (auto split: if_splits option.splits go.splits)
    define inst where "inst = ready sys ! n"
    from n have mem: "inst \<in> set (ready sys)" unfolding inst_def by simp
    from install_result[OF run]
    have w: "written evs = [server']"
      and res: "server' = inst\<lparr>State := StateRunning\<rparr> \<or>
                (\<exists>e. ret = Some e \<and> server' = inst\<lparr>State := StateError, Error := ErrorText e\<rparr>)"
      unfolding inst_def by simp_all
    from res have sid': "ID server' = ID inst"
      and st': "State server' = StateRunning \<or> State server' = StateError"
      by auto
    have sw: "states_written sid (trace sys') =
        states_written sid (trace sys) @ (if ID inst = sid then [State server'] else [])"
      for sid
      unfolding tr states_written_append using w sid' by (simp add: states_written_def)
    from distinct_without[OF dist n]
    have b: "distinct (map ID (ready sys'))"
      and other: "\<And>s. s \<in> set (ready sys') \<Longrightarrow> ID s \<noteq> ID inst"
      unfolding rdy inst_def by blast+
    have sub: "set (ready sys') \<subseteq> set (ready sys)"
      unfolding rdy using set_take_subset[of n "ready sys"] set_drop_subset[of "Suc n" "ready sys"]
      by auto
    have a: "\<exists>j\<le>length listed.
        todo sys' = drop j listed \<and>
        set (ready sys') \<subseteq> stage ` set (take j listed) \<and>
        (\<forall>sid. sid \<notin> ID ` set (take j listed) \<longrightarrow>
           states_written sid (trace sys') = [] \<or>
           returned sys' \<noteq> None \<and> states_written sid (trace sys') = [StateStaging])"
    proof (intro exI[of _ j] conjI allI impI)
      show "j \<le> length listed" by (rule j)
      show "todo sys' = drop j listed" using td todo by simp
      show "set (ready sys') \<subseteq> stage ` set (take j listed)" using sub rd by blast
    next
      fix sid assume old: "sid \<notin> ID ` set (take j listed)"
      with rid[OF mem] have "ID inst \<noteq> sid" by auto
      with fresh[OF old] show "states_written sid (trace sys') = [] \<or>
           returned sys' \<noteq> None \<and> states_written sid (trace sys') = [StateStaging]"
        unfolding sw rt by simp
    qed
    have c: "\<forall>s\<in>set (ready sys'). states_written (ID s) (trace sys') = [StateStaging]"
    proof
      fix s assume s: "s \<in> set (ready sys')"
      with sub have "s \<in> set (ready sys)" by blast
      from own[OF this] other[OF s] show "states_written (ID s) (trace sys') = [StateStaging]"
        unfolding sw by simp
    qed
    have f: "\<forall>sid. states_written sid (trace sys') \<in>
        {[], [StateStaging], [StateStaging, StateRunning], [StateStaging, StateError]}"
    proof
      fix sid
      show "states_written sid (trace sys') \<in>
        {[], [StateStaging], [StateStaging, StateRunning], [StateStaging, StateError]}"
      proof (cases "ID inst = sid")
        case True
        with own[OF mem] st' show ?thesis unfolding sw by auto
      next
        case False
        with all[of sid] show ?thesis unfolding sw by simp
      qed
    qed
    from a b c f show ?thesis unfolding lifecycle_inv_def by blast
  qed
qed

lemma lifecycle_run:
  "distinct (map ID listed) \<Longrightarrow> lifecycle_inv listed sys \<Longrightarrow>
   sched_run ctx ms sys = Some sys' \<Longrightarrow> lifecycle_inv listed sys'"
proof (induction ms arbitrary: sys)
  case Nil
  then show ?case by simp
next
  case (Cons m ms)
  from Cons.prems(3) obtain mid where mid: "sched_step ctx m sys = Some mid"
    and rest: "sched_run ctx ms mid = Some sys'"
    by (auto split: option.splits)
  from lifecycle_step[OF Cons.prems(1,2) mid] have "lifecycle_inv listed mid" .
  from Cons.IH[OF Cons.prems(1) this rest] show ?case .
qed

text \<open>
  In every run, the states written for one server are \<^verbatim>\<open>staging\<close>, then \<^verbatim>\<open>running\<close> or
  \<^verbatim>\<open>error\<close>, and nothing after.
\<close>

lemma states_written_forward:
  assumes "ListState (servers i) StateCreated = (listed, lerr)"
    and "distinct (map ID listed)"
    and "sched_run ctx ms (sched_start i) = Some sys"
  shows "states_written sid (trace sys) \<in>
     {[], [StateStaging], [StateStaging, StateRunning], [StateStaging, StateError]}"
  using lifecycle_run[OF assms(2) lifecycle_start[OF assms(1)] assms(3)]
  unfolding lifecycle_inv_def by blast

lemma install_fullClient:
  "install (demo_installer (memStore [stage server_a] []) (\<lambda>s. Inr fullClient)) background
     (stage server_a) =
   Some (Return
     ((demo_installer (memStore [stage server_a] []) (\<lambda>s. Inr fullClient))
        \<lparr>volumes := [docker_sock],
         servers := memStore [stage server_a
                       \<lparr>State := StateError, Error := ''no space left on device''\<rparr>] []\<rparr>,
      stage server_a\<lparr>State := StateError, Error := ''no space left on device''\<rparr>,
      Some (errorString ''no space left on device''),
      [EvClient (stage server_a) None, EvTimeAfter 0, EvContainerList None,
       EvImagePull ''drone/agent'' None, EvCopy 13 None, EvClose None,
       EvContainerCreate
         (agent_config
            ((demo_installer (memStore [stage server_a] []) (\<lambda>s. Inr fullClient))
               \<lparr>volumes := [docker_sock]\<rparr>)
            (stage server_a) {''/var/run/docker.sock''})
         \<lparr>Binds = [docker_sock], RestartPolicy = ''always''\<rparr>
         ''agent'' (Some (errorString ''no space left on device'')),
       EvUpdate (stage server_a\<lparr>State := StateError, Error := ''no space left on device''\<rparr>)
         None]))"
  by (simp add: run_defs agent_host_config_def)

lemma two_workers_share_volumes:
  "\<exists>sys.
     sched_run background [Main, Main, Main, Worker 0, Worker 0]
       (sched_start (demo_installer (memStore [server_a, server_b] []) (\<lambda>s. Inr (slowClient 0))))
       = Some sys \<and>
     volumes (shared sys) = [docker_sock, docker_sock] \<and>
     trace sys =
       [EvUpdate (stage server_a) None, EvGo (stage server_a),
        EvUpdate (stage server_b) None, EvGo (stage server_b),
        EvClient (stage server_a) None, EvTimeAfter 0, EvContainerList None,
        EvImagePull ''drone/agent'' None, EvCopy 13 None, EvClose None,
        EvContainerCreate
          (agent_config (demo_installer (memStore [] []) (\<lambda>s. Inr (slowClient 0)))
             (stage server_a) {''/var/run/docker.sock''})
          \<lparr>Binds = [docker_sock], RestartPolicy = ''always''\<rparr> ''agent'' None,
        EvContainerStart ''c0ffee'' None,
        EvUpdate (server_a\<lparr>State := StateRunning\<rparr>) None,
        EvClient (stage server_b) None, EvTimeAfter 0, EvContainerList None,
        EvImagePull ''drone/agent'' None, EvCopy 13 None, EvClose None,
        EvContainerCreate
          (agent_config (demo_installer (memStore [] []) (\<lambda>s. Inr (slowClient 0)))
             (stage server_b) {''/var/run/docker.sock''})
          \<lparr>Binds = [docker_sock, docker_sock], RestartPolicy = ''always''\<rparr> ''agent'' None,
        EvContainerStart ''c0ffee'' None,
        EvUpdate (server_b\<lparr>State := StateRunning\<rparr>) None]"
  by (simp add: run_defs sched_start_def agent_host_config_def agent_config_def)

lemma install_demo_volumes:
  "\<exists>i' inst' ret evs.
      install (demo_installer (memStore [stage server_a] []) (\<lambda>s. Inr (slowClient 0))) background
        (stage server_a) = Some (Return (i', inst', ret, evs)) \<and>
      State inst' = StateRunning \<and> ret = None \<and> volumes i' = [docker_sock]"
  by (simp add: run_defs)

text \<open>
  Claim C9. The state of a record is the one value of its field \<open>State\<close>. The theorem has
  three parts.

  \<^verbatim>\<open>Install\<close>, for a store that lists records in the state \<^verbatim>\<open>created\<close>: the records it hands to
  the store are the listed ones, in order and each once, with the state set to \<^verbatim>\<open>staging\<close> and
  nothing else changed, and the workers it launches hold the same records.

  \<^verbatim>\<open>install\<close>, for any record: it does not panic; when it returns it has handed to the store
  one record, the one it leaves, which is the record it was given with the state set to
  \<^verbatim>\<open>running\<close>, or with the state set to \<^verbatim>\<open>error\<close> and the error field set to the text of the
  error it returns; so it never sets \<^verbatim>\<open>created\<close> or \<^verbatim>\<open>staging\<close>. For a record whose error field
  was empty, when the failing error has a text, the error field of the record left is
  non-empty exactly in the state \<^verbatim>\<open>error\<close>.

  Every run of \<^verbatim>\<open>Install\<close> and its goroutines, for a store that lists each server once: the
  states handed to the store for one server are, in order, \<^verbatim>\<open>staging\<close> and then at most one of
  \<^verbatim>\<open>running\<close> and \<^verbatim>\<open>error\<close>. So no record is set to \<^verbatim>\<open>created\<close>, and none is set to \<^verbatim>\<open>staging\<close>
  after it was set to anything.

  The records meant are the ones handed to the store and the one left when the worker
  returns; inside \<^verbatim>\<open>errorUpdate\<close> the state is assigned one statement before the error field.
\<close>

theorem lifecycle_moves_forward:
  "(ListState (servers i) StateCreated = (listed, None) \<and>
    (\<forall>s\<in>set listed. State s = StateCreated) \<and>
    Install i ctx = (i', ret, launched, evs) \<longrightarrow>
      (\<exists>k m. k \<le> m \<and> m \<le> length listed \<and>
         launched = map (\<lambda>s. s\<lparr>State := StateStaging\<rparr>) (take k listed) \<and>
         written evs = map (\<lambda>s. s\<lparr>State := StateStaging\<rparr>) (take m listed)) \<and>
      (\<forall>s\<in>set (written evs) \<union> set launched.
         \<exists>s0\<in>set listed. State s0 = StateCreated \<and> s = s0\<lparr>State := StateStaging\<rparr>)) \<and>
   install i2 ctx inst \<noteq> Some Panic \<and>
   (install i2 ctx inst = Some (Return (i3, s2, ret2, evs2)) \<longrightarrow>
      written evs2 = [s2] \<and>
      (s2 = inst\<lparr>State := StateRunning\<rparr> \<or>
       (\<exists>e. ret2 = Some e \<and> s2 = inst\<lparr>State := StateError, Error := ErrorText e\<rparr>)) \<and>
      State s2 \<noteq> StateCreated \<and> State s2 \<noteq> StateStaging \<and>
      (Error inst = [] \<and> (\<forall>e. State s2 = StateError \<and> ret2 = Some e \<longrightarrow> ErrorText e \<noteq> []) \<longrightarrow>
         (Error s2 \<noteq> [] \<longleftrightarrow> State s2 = StateError))) \<and>
   (ListState (servers i) StateCreated = (listed, lerr) \<and> distinct (map ID listed) \<and>
    sched_run ctx ms (sched_start i) = Some sys \<longrightarrow>
      states_written sid (trace sys) \<in>
        {[], [StateStaging], [StateStaging, StateRunning], [StateStaging, StateError]})"
proof (intro conjI impI)
  assume a: "ListState (servers i) StateCreated = (listed, None) \<and>
    (\<forall>s\<in>set listed. State s = StateCreated) \<and>
    Install i ctx = (i', ret, launched, evs)"
  then have ls: "ListState (servers i) StateCreated = (listed, None)"
    and created: "\<forall>s\<in>set listed. State s = StateCreated"
    and run: "Install i ctx = (i', ret, launched, evs)"
    by blast+
  have stage_eq: "stage = (\<lambda>s. s\<lparr>State := StateStaging\<rparr>)"
    by (rule ext) (simp add: stage_def)
  from Install_stages_listed[OF ls run] obtain k m where km: "k \<le> m" "m \<le> length listed"
    and launched: "launched = map stage (take k listed)"
    and wr: "written evs = map stage (take m listed)"
    by blast
  from km launched wr
  show "\<exists>k m. k \<le> m \<and> m \<le> length listed \<and>
         launched = map (\<lambda>s. s\<lparr>State := StateStaging\<rparr>) (take k listed) \<and>
         written evs = map (\<lambda>s. s\<lparr>State := StateStaging\<rparr>) (take m listed)"
    unfolding stage_eq by blast
  show "\<forall>s\<in>set (written evs) \<union> set launched.
         \<exists>s0\<in>set listed. State s0 = StateCreated \<and> s = s0\<lparr>State := StateStaging\<rparr>"
  proof
    fix s assume "s \<in> set (written evs) \<union> set launched"
    then have "s \<in> stage ` set (take m listed) \<or> s \<in> stage ` set (take k listed)"
      unfolding launched wr by auto
    then obtain s0 where s0: "s0 \<in> set listed" and s: "s = stage s0"
      using set_take_subset[of m listed] set_take_subset[of k listed] by auto
    with created show "\<exists>s0\<in>set listed. State s0 = StateCreated \<and> s = s0\<lparr>State := StateStaging\<rparr>"
      by (auto simp: stage_def)
  qed
next
  show "install i2 ctx inst \<noteq> Some Panic"
  proof
    assume "install i2 ctx inst = Some Panic"
    from install_result[OF this] show False by simp
  qed
next
  assume run: "install i2 ctx inst = Some (Return (i3, s2, ret2, evs2))"
  from install_result[OF run]
  have w: "written evs2 = [s2]"
    and res: "s2 = inst\<lparr>State := StateRunning\<rparr> \<or>
       (\<exists>e. ret2 = Some e \<and> s2 = inst\<lparr>State := StateError, Error := ErrorText e\<rparr>)"
    by simp_all
  show "written evs2 = [s2]" by (rule w)
  show "s2 = inst\<lparr>State := StateRunning\<rparr> \<or>
       (\<exists>e. ret2 = Some e \<and> s2 = inst\<lparr>State := StateError, Error := ErrorText e\<rparr>)"
    by (rule res)
  from res show "State s2 \<noteq> StateCreated" by auto
  from res show "State s2 \<noteq> StateStaging" by auto
  show "Error s2 \<noteq> [] \<longleftrightarrow> State s2 = StateError"
    if "Error inst = [] \<and> (\<forall>e. State s2 = StateError \<and> ret2 = Some e \<longrightarrow> ErrorText e \<noteq> [])"
    using res that by auto
next
  assume "ListState (servers i) StateCreated = (listed, lerr) \<and> distinct (map ID listed) \<and>
    sched_run ctx ms (sched_start i) = Some sys"
  then have ls: "ListState (servers i) StateCreated = (listed, lerr)"
    and d: "distinct (map ID listed)"
    and run: "sched_run ctx ms (sched_start i) = Some sys"
    by blast+
  show "states_written sid (trace sys) \<in>
        {[], [StateStaging], [StateStaging, StateRunning], [StateStaging, StateError]}"
    by (rule states_written_forward[OF ls d run])
qed

theorem lifecycle_moves_forward_witness:
  "(\<exists>i' evs.
     Install (demo_installer (memStore [server_a, server_b] [''b'']) (\<lambda>s. Inr (slowClient 0)))
       background = (i', Some (errorString ''store: update failed''), [stage server_a], evs) \<and>
     written evs = [server_a\<lparr>State := StateStaging\<rparr>, server_b\<lparr>State := StateStaging\<rparr>] \<and>
     State server_a = StateCreated \<and> State server_b = StateCreated) \<and>
   (\<exists>i3 s2 ret2 evs2.
     install (demo_installer (memStore [stage server_a] []) (\<lambda>s. Inr fullClient)) background
       (stage server_a) = Some (Return (i3, s2, ret2, evs2)) \<and>
     Error (stage server_a) = [] \<and>
     ret2 = Some (errorString ''no space left on device'') \<and>
     State s2 = StateError \<and> Error s2 = ''no space left on device'' \<and>
     written evs2 = [s2] \<and>
     (Error s2 \<noteq> [] \<longleftrightarrow> State s2 = StateError)) \<and>
   (\<exists>sys.
     sched_run background [Main, Worker 0, Main, Main]
       (sched_start (demo_installer (memStore [server_a, server_b] []) (\<lambda>s. Inr (slowClient 0))))
       = Some sys \<and>
     states_written ''1'' (trace sys) = [StateStaging, StateRunning] \<and>
     states_written ''2'' (trace sys) = [StateStaging] \<and>
     states_written ''1'' (trace sys) \<in>
       {[], [StateStaging], [StateStaging, StateRunning], [StateStaging, StateError]})"
proof (intro conjI)
  let ?i = "demo_installer (memStore [server_a, server_b] [''b'']) (\<lambda>s. Inr (slowClient 0))"
  let ?e = "errorString ''store: update failed''"
  from Install_second_update_fails obtain i' evs where
    run: "Install ?i background = (i', Some ?e, [stage server_a], evs)"
    and evs: "evs = [EvUpdate (stage server_a) None, EvGo (stage server_a),
       EvUpdate (stage server_b) (Some ?e)]"
    by blast
  have ls: "ListState (servers ?i) StateCreated = ([server_a, server_b], None)"
    by (simp add: run_defs)
  have created: "\<forall>s\<in>set [server_a, server_b]. State s = StateCreated"
    by (simp add: server_a_def server_b_def)
  from lifecycle_moves_forward[where i="?i" and listed="[server_a, server_b]" and ctx=background
      and i'=i' and ret="Some ?e" and launched="[stage server_a]" and evs=evs,
      THEN conjunct1, THEN mp, OF conjI[OF ls conjI[OF created run]], THEN conjunct1]
  obtain k m where "m \<le> length [server_a, server_b]"
    and wr: "written evs = map (\<lambda>s. s\<lparr>State := StateStaging\<rparr>) (take m [server_a, server_b])"
    by blast
  moreover from evs have "length (written evs) = 2" by simp
  ultimately have "m = 2" by simp
  with wr have "written evs = [server_a\<lparr>State := StateStaging\<rparr>, server_b\<lparr>State := StateStaging\<rparr>]"
    by simp
  with run created show "\<exists>i' evs.
     Install ?i background = (i', Some ?e, [stage server_a], evs) \<and>
     written evs = [server_a\<lparr>State := StateStaging\<rparr>, server_b\<lparr>State := StateStaging\<rparr>] \<and>
     State server_a = StateCreated \<and> State server_b = StateCreated"
    by simp
next
  let ?i = "demo_installer (memStore [stage server_a] []) (\<lambda>s. Inr fullClient)"
  let ?e = "errorString ''no space left on device''"
  obtain i3 s2 evs2 where
    run: "install ?i background (stage server_a) = Some (Return (i3, s2, Some ?e, evs2))"
    using install_fullClient by simp
  have empty: "Error (stage server_a) = []" by (simp add: stage_def server_a_def)
  from lifecycle_moves_forward[where ?i2.0="?i" and ctx=background and inst="stage server_a"
      and ?i3.0=i3 and ?s2.0=s2 and ?ret2.0="Some ?e" and ?evs2.0=evs2,
      THEN conjunct2, THEN conjunct2, THEN conjunct1, THEN mp, OF run]
  have w: "written evs2 = [s2]"
    and res: "s2 = stage server_a\<lparr>State := StateRunning\<rparr> \<or>
       (\<exists>e. Some ?e = Some e \<and> s2 = stage server_a\<lparr>State := StateError, Error := ErrorText e\<rparr>)"
    and iff: "Error (stage server_a) = [] \<and>
        (\<forall>e. State s2 = StateError \<and> Some ?e = Some e \<longrightarrow> ErrorText e \<noteq> []) \<longrightarrow>
        (Error s2 \<noteq> [] \<longleftrightarrow> State s2 = StateError)"
    by blast+
  have "\<forall>e. State s2 = StateError \<and> Some ?e = Some e \<longrightarrow> ErrorText e \<noteq> []" by auto
  with iff empty have iff': "Error s2 \<noteq> [] \<longleftrightarrow> State s2 = StateError" by blast
  have "s2 = stage server_a\<lparr>State := StateError, Error := ''no space left on device''\<rparr>"
    using run install_fullClient by simp
  then have "State s2 = StateError" "Error s2 = ''no space left on device''" by simp_all
  with run empty w iff' show "\<exists>i3 s2 ret2 evs2.
     install ?i background (stage server_a) = Some (Return (i3, s2, ret2, evs2)) \<and>
     Error (stage server_a) = [] \<and>
     ret2 = Some ?e \<and>
     State s2 = StateError \<and> Error s2 = ''no space left on device'' \<and>
     written evs2 = [s2] \<and>
     (Error s2 \<noteq> [] \<longleftrightarrow> State s2 = StateError)"
    by blast
next
  let ?i = "demo_installer (memStore [server_a, server_b] []) (\<lambda>s. Inr (slowClient 0))"
  from worker_runs_before_next_staging obtain sys where
    run: "sched_run background [Main, Worker 0, Main, Main] (sched_start ?i) = Some sys"
    and tr: "trace sys =
       [EvUpdate (stage server_a) None, EvGo (stage server_a),
        EvClient (stage server_a) None, EvTimeAfter 0, EvContainerList None,
        EvImagePull ''drone/agent'' None, EvCopy 13 None, EvClose None,
        EvContainerCreate
          (agent_config (demo_installer (memStore [] []) (\<lambda>s. Inr (slowClient 0)))
             (stage server_a) {''/var/run/docker.sock''})
          \<lparr>Binds = [docker_sock], RestartPolicy = ''always''\<rparr> ''agent'' None,
        EvContainerStart ''c0ffee'' None,
        EvUpdate (server_a\<lparr>State := StateRunning\<rparr>) None,
        EvUpdate (stage server_b) None, EvGo (stage server_b)]"
    by blast
  have ls: "ListState (servers ?i) StateCreated = ([server_a, server_b], None)"
    by (simp add: run_defs)
  have d: "distinct (map ID [server_a, server_b])"
    by (simp add: server_a_def server_b_def)
  from lifecycle_moves_forward[where i="?i" and listed="[server_a, server_b]" and lerr=None
      and ctx=background and ms="[Main, Worker 0, Main, Main]" and sys=sys and sid="''1''",
      THEN conjunct2, THEN conjunct2, THEN conjunct2, THEN mp, OF conjI[OF ls conjI[OF d run]]]
  have fw: "states_written ''1'' (trace sys) \<in>
       {[], [StateStaging], [StateStaging, StateRunning], [StateStaging, StateError]}"
    by blast
  have one: "states_written ''1'' (trace sys) = [StateStaging, StateRunning]"
    unfolding tr by (simp add: states_written_def stage_def server_a_def server_b_def)
  have two: "states_written ''2'' (trace sys) = [StateStaging]"
    unfolding tr by (simp add: states_written_def stage_def server_a_def server_b_def)
  from run one two fw show "\<exists>sys.
     sched_run background [Main, Worker 0, Main, Main] (sched_start ?i) = Some sys \<and>
     states_written ''1'' (trace sys) = [StateStaging, StateRunning] \<and>
     states_written ''2'' (trace sys) = [StateStaging] \<and>
     states_written ''1'' (trace sys) \<in>
       {[], [StateStaging], [StateStaging, StateRunning], [StateStaging, StateError]}"
    by blast
qed

text \<open>
  Claim C3 says that no operation changes the configuration held by the installer, the
  list of volumes in particular. \<^verbatim>\<open>install\<close> assigns to \<^verbatim>\<open>i.volumes\<close>: after one successful
  bootstrap the installer that started with no volumes holds the bind of the docker socket,
  and when two workers have run the list holds it twice, and the second container was
  created with that bind twice.
\<close>

theorem install_writes_installer_volumes:
  "volumes (demo_installer (memStore [stage server_a] []) (\<lambda>s. Inr (slowClient 0))) = [] \<and>
   (\<exists>i' inst' ret evs.
      install (demo_installer (memStore [stage server_a] []) (\<lambda>s. Inr (slowClient 0))) background
        (stage server_a) = Some (Return (i', inst', ret, evs)) \<and>
      State inst' = StateRunning \<and> ret = None \<and> volumes i' = [docker_sock]) \<and>
   (\<exists>sys cfg.
      sched_run background [Main, Main, Main, Worker 0, Worker 0]
        (sched_start (demo_installer (memStore [server_a, server_b] []) (\<lambda>s. Inr (slowClient 0))))
        = Some sys \<and>
      volumes (shared sys) = [docker_sock, docker_sock] \<and>
      EvContainerCreate cfg \<lparr>Binds = [docker_sock, docker_sock], RestartPolicy = ''always''\<rparr>
        ''agent'' None \<in> set (trace sys))"
proof (intro conjI)
  show "volumes (demo_installer (memStore [stage server_a] []) (\<lambda>s. Inr (slowClient 0))) = []"
    by (simp add: demo_installer_def)
  show "\<exists>i' inst' ret evs.
      install (demo_installer (memStore [stage server_a] []) (\<lambda>s. Inr (slowClient 0))) background
        (stage server_a) = Some (Return (i', inst', ret, evs)) \<and>
      State inst' = StateRunning \<and> ret = None \<and> volumes i' = [docker_sock]"
    by (rule install_demo_volumes)
  from two_workers_share_volumes obtain sys where
    run: "sched_run background [Main, Main, Main, Worker 0, Worker 0]
       (sched_start (demo_installer (memStore [server_a, server_b] []) (\<lambda>s. Inr (slowClient 0))))
       = Some sys"
    and vols: "volumes (shared sys) = [docker_sock, docker_sock]"
    and created: "EvContainerCreate
          (agent_config (demo_installer (memStore [] []) (\<lambda>s. Inr (slowClient 0)))
             (stage server_b) {''/var/run/docker.sock''})
          \<lparr>Binds = [docker_sock, docker_sock], RestartPolicy = ''always''\<rparr> ''agent'' None
        \<in> set (trace sys)"
    by auto
  then show "\<exists>sys cfg.
      sched_run background [Main, Main, Main, Worker 0, Worker 0]
        (sched_start (demo_installer (memStore [server_a, server_b] []) (\<lambda>s. Inr (slowClient 0))))
        = Some sys \<and>
      volumes (shared sys) = [docker_sock, docker_sock] \<and>
      EvContainerCreate cfg \<lparr>Binds = [docker_sock, docker_sock], RestartPolicy = ''always''\<rparr>
        ''agent'' None \<in> set (trace sys)"
    by blast
qed

end
